theory Spec2Isabelle
  imports Complex_Main
begin

section \<open>Trail search: values, strings and the lookup table\<close>

text \<open>
  The development embeds \<^verbatim>\<open>src/models/TrailSearch.js\<close>: the function
  \<^verbatim>\<open>searchTrails\<close> with its closure \<^verbatim>\<open>addParam\<close> and the two range builders
  \<^verbatim>\<open>addElevationFilters\<close> and \<^verbatim>\<open>addDistanceFilters\<close>.

  A filter value is what \<^verbatim>\<open>JSON.parse\<close> of the \<^verbatim>\<open>filters\<close> query parameter can hold
  at the top level of the filter object, plus \<^verbatim>\<open>undefined\<close> for the read of a missing
  property. Numbers are rationals (every finite double is one; comparison and
  truthiness agree). Arrays are arrays of strings, as the doc comment of
  \<^verbatim>\<open>searchTrails\<close> gives them. Strings are lists of 8-bit characters.
\<close>

datatype jsval =
    JUndef
  | JNull
  | JBool bool
  | JNum rat
  | JStr string
  | JArr "string list"

text \<open>The result of \<^verbatim>\<open>Number(v)\<close>: a finite number, an infinity or \<^verbatim>\<open>NaN\<close>.\<close>

datatype jsnum = NaN | NegInf | Fin rat | PosInf

text \<open>JavaScript's \<^verbatim>\<open>ToBoolean\<close>, which every \<^verbatim>\<open>if (x)\<close> and \<^verbatim>\<open>!x\<close> applies.\<close>

fun truthy :: "jsval \<Rightarrow> bool" where
  "truthy JUndef = False"
| "truthy JNull = False"
| "truthy (JBool b) = b"
| "truthy (JNum r) = (r \<noteq> 0)"
| "truthy (JStr s) = (s \<noteq> [])"
| "truthy (JArr xs) = True"

text \<open>
  The filter object: its own enumerable string keys in insertion order, as
  \<^verbatim>\<open>Object.keys\<close> lists them. \<^verbatim>\<open>filters[k]\<close> reads \<^verbatim>\<open>undefined\<close> for a missing key,
  an assignment keeps the position of an existing key and appends a new one,
  \<^verbatim>\<open>delete\<close> removes the entry.
\<close>

type_synonym filters = "(string \<times> jsval) list"

definition objectKeys :: "filters \<Rightarrow> string list" where
  "objectKeys fs = map fst fs"

definition getProp :: "filters \<Rightarrow> string \<Rightarrow> jsval" where
  "getProp fs k = (case map_of fs k of None \<Rightarrow> JUndef | Some v \<Rightarrow> v)"

fun setProp :: "filters \<Rightarrow> string \<Rightarrow> jsval \<Rightarrow> filters" where
  "setProp [] k v = [(k, v)]"
| "setProp ((k', v') # fs) k v =
     (if k' = k then (k, v) # fs else (k', v') # setProp fs k v)"

definition deleteProp :: "filters \<Rightarrow> string \<Rightarrow> filters" where
  "deleteProp fs k = filter (\<lambda>(k', v). k' \<noteq> k) fs"

subsection \<open>String primitives\<close>

text \<open>Decimal rendering of a non-negative integer, as a template literal prints it.\<close>

definition digit_char :: "nat \<Rightarrow> char" where
  "digit_char d = ''0123456789'' ! d"

function show_nat :: "nat \<Rightarrow> string" where
  "show_nat n = (if n < 10 then [digit_char n] else show_nat (n div 10) @ [digit_char (n mod 10)])"
  by pat_completeness auto
termination
  by (relation "measure (\<lambda>n. n)") auto

declare show_nat.simps [simp del]

text \<open>\<^verbatim>\<open>Array.prototype.join\<close> on strings.\<close>

fun join :: "string \<Rightarrow> string list \<Rightarrow> string" where
  "join sep [] = []"
| "join sep [x] = x"
| "join sep (x # y # ys) = x @ sep @ join sep (y # ys)"

text \<open>
  \<^verbatim>\<open>s.split(' ')\<close>: cut at every single space character. The empty string gives
  one empty piece, two adjacent spaces give an empty piece between them.
\<close>

fun split_space :: "string \<Rightarrow> string list" where
  "split_space [] = [[]]"
| "split_space (c # cs) =
     (if c = CHR '' '' then [] # split_space cs
      else (case split_space cs of
              [] \<Rightarrow> [[c]]
            | w # ws \<Rightarrow> (c # w) # ws))"

text \<open>
  White space and line terminators among the 8-bit characters: what \<^verbatim>\<open>trim\<close> removes
  and what the class \<^verbatim>\<open>\s\<close> matches (tab, line feed, vertical tab, form feed, carriage
  return, space, no-break space).
\<close>

definition is_space :: "char \<Rightarrow> bool" where
  "is_space c = (let n = (of_char c :: nat) in (9 \<le> n \<and> n \<le> 13) \<or> n = 32 \<or> n = 160)"

text \<open>The class \<^verbatim>\<open>\w\<close>: ASCII letters, digits and the underscore.\<close>

definition is_word :: "char \<Rightarrow> bool" where
  "is_word c = (let n = (of_char c :: nat) in
     (48 \<le> n \<and> n \<le> 57) \<or> (65 \<le> n \<and> n \<le> 90) \<or> (97 \<le> n \<and> n \<le> 122) \<or> n = 95)"

definition trim :: "string \<Rightarrow> string" where
  "trim s = rev (dropWhile is_space (rev (dropWhile is_space s)))"

text \<open>\<^verbatim>\<open>word.replace(/[^\w\s]/gi, '')\<close>: delete every character outside both classes.\<close>

definition strip_non_word :: "string \<Rightarrow> string" where
  "strip_non_word w = filter (\<lambda>c. is_word c \<or> is_space c) w"

subsection \<open>The search term sanitizer (lines 81 to 85)\<close>

definition sanitizeSearchTerm :: "string \<Rightarrow> string" where
  "sanitizeSearchTerm searchTerm =
     join '' & '' (map strip_non_word (filter (\<lambda>word. trim word \<noteq> []) (split_space searchTerm)))"

subsection \<open>The parameter binder (lines 60 to 67)\<close>

text \<open>
  The mutable state of one call of \<^verbatim>\<open>searchTrails\<close>: the filter object (the range
  builders assign to it and delete from it), the parameter list and counter that
  \<^verbatim>\<open>addParam\<close> closes over, and the WHERE clause under construction.
\<close>

record sstate =
  filters :: filters
  params :: "jsval list"
  paramCount :: nat
  whereClause :: string

definition addParam :: "jsval \<Rightarrow> sstate \<Rightarrow> string \<times> sstate" where
  "addParam param st =
     (let st' = st\<lparr>params := params st @ [param], paramCount := paramCount st + 1\<rparr>
      in (''$'' @ show_nat (paramCount st'), st'))"

subsection \<open>Coercions and comparison\<close>

text \<open>
  \<^verbatim>\<open>helpers/objectMaps\<close> is not part of the sources at hand, so its table
  \<^verbatim>\<open>jsToSqlFilters\<close> (a \<^verbatim>\<open>Map\<close> from filter key to column expression) is a parameter:
  \<open>jsToSqlFilters env k\<close> is \<^verbatim>\<open>jsToSqlFilters.get(k)\<close>, \<open>None\<close> for \<^verbatim>\<open>undefined\<close>.
  The built-in conversion of a string to a number is a parameter as well.
\<close>

record env =
  jsToSqlFilters :: "string \<Rightarrow> string option"
  stringToNumber :: "string \<Rightarrow> jsnum"

text \<open>Truthiness of a table entry: \<^verbatim>\<open>undefined\<close> and the empty string are falsy.\<close>

fun truthyStr :: "string option \<Rightarrow> bool" where
  "truthyStr None = False"
| "truthyStr (Some s) = (s \<noteq> [])"

text \<open>A table entry inside a template literal.\<close>

fun interp :: "string option \<Rightarrow> string" where
  "interp None = ''undefined''"
| "interp (Some s) = s"

text \<open>\<^verbatim>\<open>ToPrimitive\<close>: an array of strings becomes its elements joined by commas.\<close>

fun toPrimitive :: "jsval \<Rightarrow> jsval" where
  "toPrimitive (JArr xs) = JStr (join '','' xs)"
| "toPrimitive v = v"

text \<open>\<^verbatim>\<open>Number(v)\<close>.\<close>

fun toNumber :: "env \<Rightarrow> jsval \<Rightarrow> jsnum" where
  "toNumber env JUndef = NaN"
| "toNumber env JNull = Fin 0"
| "toNumber env (JBool b) = Fin (if b then 1 else 0)"
| "toNumber env (JNum r) = Fin r"
| "toNumber env (JStr s) = stringToNumber env s"
| "toNumber env (JArr xs) = stringToNumber env (join '','' xs)"

text \<open>\<^verbatim>\<open>a != b\<close> on numbers: \<^verbatim>\<open>NaN\<close> differs from every number, itself included.\<close>

fun num_neq :: "jsnum \<Rightarrow> jsnum \<Rightarrow> bool" where
  "num_neq NaN b = True"
| "num_neq a NaN = True"
| "num_neq a b = (a \<noteq> b)"

text \<open>\<^verbatim>\<open>a > b\<close> on numbers: false as soon as one side is \<^verbatim>\<open>NaN\<close>.\<close>

fun num_gt :: "jsnum \<Rightarrow> jsnum \<Rightarrow> bool" where
  "num_gt NaN b = False"
| "num_gt a NaN = False"
| "num_gt NegInf b = False"
| "num_gt (Fin x) NegInf = True"
| "num_gt (Fin x) (Fin y) = (y < x)"
| "num_gt (Fin x) PosInf = False"
| "num_gt PosInf PosInf = False"
| "num_gt PosInf b = True"

text \<open>Strings compare by code units, a proper prefix being smaller.\<close>

fun str_less :: "string \<Rightarrow> string \<Rightarrow> bool" where
  "str_less [] [] = False"
| "str_less [] (y # ys) = True"
| "str_less (x # xs) [] = False"
| "str_less (x # xs) (y # ys) =
     (if x = y then str_less xs ys else (of_char x :: nat) < of_char y)"

text \<open>
  \<^verbatim>\<open>a > b\<close> on values: two strings compare as strings, anything else as numbers.
\<close>

fun prim_gt :: "env \<Rightarrow> jsval \<Rightarrow> jsval \<Rightarrow> bool" where
  "prim_gt env (JStr s) (JStr t) = str_less t s"
| "prim_gt env a b = num_gt (toNumber env a) (toNumber env b)"

definition js_gt :: "env \<Rightarrow> jsval \<Rightarrow> jsval \<Rightarrow> bool" where
  "js_gt env a b = prim_gt env (toPrimitive a) (toPrimitive b)"

text \<open>Every exception of the module is a plain \<^verbatim>\<open>Error\<close> told apart by its message
  only; \<^verbatim>\<open>TypeError\<close> is what the runtime raises on a property read of \<^verbatim>\<open>undefined\<close>.\<close>

datatype error = Error string | TypeError string

subsection \<open>The elevation builder (lines 180 to 194)\<close>

definition startsWith :: "string \<Rightarrow> string \<Rightarrow> bool" where
  "startsWith s p = (take (length p) s = p)"

definition addElevationFilters :: "env \<Rightarrow> string \<Rightarrow> string \<Rightarrow> sstate \<Rightarrow> error + (string \<times> sstate)" where
  "addElevationFilters env unit key st =
     (let elevType = (if startsWith key ''min'' then ''min'' else ''max'');
          filterParam = (if elevType = ''min'' then ''>'' else ''<'');
          currentKey = key @ unit;
          currentSqlKey = jsToSqlFilters env currentKey
      in if \<not> truthyStr currentSqlKey then Inl (Error (''Invalid filter key: '' @ key))
         else (let (currentParam, st') = addParam (getProp (filters st) key) st
               in Inr ('' AND '' @ interp currentSqlKey @ '' '' @ filterParam @ ''= '' @ currentParam @ '' '', st')))"

subsection \<open>The distance builder (lines 198 to 233)\<close>

definition addDistanceFilters :: "env \<Rightarrow> string \<Rightarrow> string \<Rightarrow> sstate \<Rightarrow> error + (string \<times> sstate)" where
  "addDistanceFilters env unit key st =
     (let distType = (if startsWith key ''min'' then ''min'' else ''max'');
          currentKey = distType @ ''Distance'' @ unit;
          nextKey = (if distType = ''min'' then ''maxDistance'' @ unit else ''minDistance'' @ unit);
          currentSqlKey = jsToSqlFilters env currentKey;
          nextSqlKey = jsToSqlFilters env nextKey;
          noUnitCurKey = take 11 currentKey;
          noUnitNextKey = take 11 nextKey
      in if \<not> truthyStr currentSqlKey then Inl (Error (''Invalid filter key: '' @ key))
         else if \<not> truthyStr nextSqlKey then Inl (Error (''Invalid filter key: '' @ key))
         else if truthy (getProp (filters st) nextKey) then
           (let fs = filters st;
                fs1 = (if js_gt env (getProp fs noUnitCurKey) (getProp fs noUnitNextKey)
                       then setProp (setProp fs noUnitCurKey (getProp fs noUnitNextKey))
                              noUnitNextKey (getProp fs noUnitCurKey)
                       else fs);
                (currentParam, st1) = addParam (getProp fs1 noUnitCurKey) (st\<lparr>filters := fs1\<rparr>);
                (nextParam, st2) = addParam (getProp fs1 noUnitNextKey) st1;
                st3 = st2\<lparr>filters := deleteProp (deleteProp fs1 noUnitCurKey) noUnitNextKey\<rparr>
            in Inr ('' AND '' @ interp currentSqlKey @ '' BETWEEN '' @ currentParam
                      @ '' AND '' @ nextParam @ '' '', st3))
         else
           (let (currentParam, st1) = addParam (getProp (filters st) noUnitCurKey) st;
                st2 = st1\<lparr>filters := deleteProp (filters st1) noUnitCurKey\<rparr>
            in Inr (if distType = ''min''
                    then '' AND '' @ interp currentSqlKey @ '' >= '' @ currentParam @ '' ''
                    else '' AND '' @ interp nextSqlKey @ '' <= '' @ currentParam @ '' '', st2)))"

subsection \<open>The predicate composer (lines 78 to 135)\<close>

text \<open>A line break of a template literal followed by its indentation.\<close>

definition indent :: "nat \<Rightarrow> string" where
  "indent n = CHR 0x0A # replicate n (CHR '' '')"

definition featuresFragment :: "string \<Rightarrow> nat \<Rightarrow> string" where
  "featuresFragment featuresParam len =
     indent 24 @ ''AND t.id IN (''
   @ indent 28 @ ''SELECT tf.trail_id''
   @ indent 28 @ ''FROM trail_features tf''
   @ indent 28 @ ''JOIN features f ON tf.feature_id = f.id''
   @ indent 28 @ ''WHERE f.feature_name = ANY('' @ featuresParam @ ''::text[])''
   @ indent 28 @ ''GROUP BY tf.trail_id''
   @ indent 28 @ ''HAVING COUNT(DISTINCT LOWER(f.feature_name)) = '' @ show_nat len
   @ indent 24 @ '') ''"

definition textFragment :: "string \<Rightarrow> string" where
  "textFragment searchParam =
     '' AND to_tsvector('english', t.name || ' ' || t.city || ' ' || t.state) @@ to_tsquery('english', ''
     @ searchParam @ '') ''"

text \<open>Lines 80 to 90: the guard is the truthiness of the search term; \<open>None\<close> stands
  for an absent (\<^verbatim>\<open>undefined\<close> or \<^verbatim>\<open>null\<close>) term.\<close>

definition textPhase :: "string option \<Rightarrow> sstate \<Rightarrow> sstate" where
  "textPhase searchTerm st =
     (case searchTerm of
        None \<Rightarrow> st
      | Some term \<Rightarrow>
          if term = [] then st
          else (let sanitizedSearchTerm = sanitizeSearchTerm term;
                    (searchParam, st') = addParam (JStr (''%'' @ sanitizedSearchTerm @ ''%'')) st
                in st'\<lparr>whereClause := whereClause st' @ textFragment searchParam\<rparr>))"

text \<open>The body of the loop over the keys (lines 94 to 133), for one key.\<close>

definition filterStep :: "env \<Rightarrow> string \<Rightarrow> string \<Rightarrow> sstate \<Rightarrow> error + sstate" where
  "filterStep env unit key st =
     (if key = ''features'' then
        (case getProp (filters st) ''features'' of
           JArr xs \<Rightarrow>
             (let (featuresParam, st') = addParam (JArr xs) st
              in Inr (st'\<lparr>whereClause := whereClause st' @ featuresFragment featuresParam (length xs)\<rparr>))
         | _ \<Rightarrow> Inl (Error ''Features filter must be an array''))
      else if key = ''difficulty'' then
        (let (difficultyParam, st') = addParam (getProp (filters st) ''difficulty'') st
         in Inr (st'\<lparr>whereClause := whereClause st'
                   @ indent 24 @ ''AND t.difficulty = ANY('' @ difficultyParam @ ''::text[])'' @ indent 20\<rparr>))
      else if key = ''type'' then
        (let (typeParam, st') = addParam (getProp (filters st) ''type'') st
         in Inr (st'\<lparr>whereClause := whereClause st'
                   @ indent 24 @ ''AND ts.type = ANY('' @ typeParam @ ''::text[])'' @ indent 20\<rparr>))
      else if key \<in> set [''minDistance'', ''maxDistance''] then
        (if \<not> truthy (getProp (filters st) key) then Inr st
         else (case addDistanceFilters env unit key st of
                 Inl e \<Rightarrow> Inl e
               | Inr (fragment, st') \<Rightarrow> Inr (st'\<lparr>whereClause := whereClause st' @ fragment\<rparr>)))
      else if key \<in> set [''minElevation'', ''maxElevation'', ''minElevationLoss'',
                          ''maxElevationLoss'', ''minElevationGain'', ''maxElevationGain''] then
        (if \<not> truthy (getProp (filters st) key) then Inr st
         else (case addElevationFilters env unit key st of
                 Inl e \<Rightarrow> Inl e
               | Inr (fragment, st') \<Rightarrow> Inr (st'\<lparr>whereClause := whereClause st' @ fragment\<rparr>)))
      else
        (if truthyStr (jsToSqlFilters env key) then
           (let (paramNum, st') = addParam (getProp (filters st) key) st
            in if num_neq (toNumber env (getProp (filters st) key)) NaN
               then Inr (st'\<lparr>whereClause := whereClause st'
                           @ ''AND '' @ interp (jsToSqlFilters env key) @ '' = '' @ paramNum\<rparr>)
               else Inr (st'\<lparr>whereClause := whereClause st'
                           @ ''AND LOWER ('' @ interp (jsToSqlFilters env key) @ '') = '' @ paramNum\<rparr>))
         else Inr st))"

text \<open>The loop runs over the keys as \<^verbatim>\<open>Object.keys\<close> listed them before the first
  iteration; a \<^verbatim>\<open>throw\<close> leaves it.\<close>

fun composeLoop :: "env \<Rightarrow> string \<Rightarrow> string list \<Rightarrow> sstate \<Rightarrow> error + sstate" where
  "composeLoop env unit [] st = Inr st"
| "composeLoop env unit (key # keys) st =
     (case filterStep env unit key st of
        Inl e \<Rightarrow> Inl e
      | Inr st' \<Rightarrow> composeLoop env unit keys st')"

definition initialState :: sstate where
  "initialState = \<lparr>filters = [], params = [], paramCount = 0, whereClause = '' WHERE 1=1 ''\<rparr>"

text \<open>Lines 78 to 135: text predicate, then the filters (\<open>None\<close> for \<^verbatim>\<open>null\<close>).\<close>

definition composePredicate :: "env \<Rightarrow> string \<Rightarrow> string option \<Rightarrow> filters option \<Rightarrow> error + sstate" where
  "composePredicate env unit searchTerm fopt =
     (let st = textPhase searchTerm initialState
      in case fopt of
           None \<Rightarrow> Inr st
         | Some fs \<Rightarrow> composeLoop env unit (objectKeys fs) (st\<lparr>filters := fs\<rparr>))"

subsection \<open>Count, fetch and hydration (lines 137 to 173)\<close>

text \<open>
  The two collaborators are parameters: \<open>query sql ps\<close> is \<^verbatim>\<open>db.query(sql, ps)\<close> and gives
  the rows or the error it throws, \<open>hydrate ids userId\<close> is
  \<^verbatim>\<open>Trail.getFullTrailsByIds(ids, userId)\<close>. Each call to a collaborator, each
  \<^verbatim>\<open>console.error\<close> and the release of the connection is an event of the run. The
  model starts once \<^verbatim>\<open>pool.connect()\<close> has returned the connection.
\<close>

type_synonym row = "(string \<times> jsval) list"

datatype event =
    Query string "jsval list"
  | Hydrate "jsnum list" jsval
  | ConsoleError error
  | Release

record 'trail page =
  totalCount :: jsval
  trails :: "'trail list"

definition baseQuery :: string where
  "baseQuery =
     indent 12 @ ''SELECT DISTINCT''
   @ indent 16 @ ''t.id''
   @ indent 12 @ ''FROM trails t''
   @ indent 12 @ ''LEFT JOIN trail_features tf ON t.id = tf.trail_id''
   @ indent 12 @ ''LEFT JOIN features f ON tf.feature_id = f.id''
   @ indent 12 @ ''LEFT JOIN trail_stats ts ON t.id = ts.trail_id''
   @ indent 8"

definition countQueryOf :: "string \<Rightarrow> string" where
  "countQueryOf wc =
     ''SELECT COUNT(DISTINCT t.id) AS total_count FROM trails t ''
   @ indent 12 @ ''LEFT JOIN trail_features tf ON t.id = tf.trail_id ''
   @ indent 12 @ ''LEFT JOIN features f ON tf.feature_id = f.id ''
   @ indent 12 @ ''LEFT JOIN trail_stats ts ON t.id = ts.trail_id ''
   @ indent 12 @ wc"

definition finalQueryOf :: "string \<Rightarrow> string \<Rightarrow> string \<Rightarrow> string" where
  "finalQueryOf wc limitParam offsetParam =
     baseQuery @ wc @ '' LIMIT '' @ limitParam @ '' OFFSET '' @ offsetParam"

text \<open>The \<^verbatim>\<open>try\<close> block, from line 59 to line 166.\<close>

definition searchBody ::
  "env \<Rightarrow> (string \<Rightarrow> jsval list \<Rightarrow> error + row list) \<Rightarrow> (jsnum list \<Rightarrow> jsval \<Rightarrow> error + 'trail list)
   \<Rightarrow> string option \<Rightarrow> rat \<Rightarrow> rat \<Rightarrow> filters option \<Rightarrow> jsval \<Rightarrow> string
   \<Rightarrow> (error + 'trail page) \<times> event list" where
  "searchBody env query hydrate searchTerm pg limit fopt userId unit =
     (let offset = (pg - 1) * limit
      in case composePredicate env unit searchTerm fopt of
           Inl e \<Rightarrow> (Inl e, [])
         | Inr st \<Rightarrow>
            (let countQuery = countQueryOf (whereClause st);
                 evs1 = [Query countQuery (params st)]
             in case query countQuery (params st) of
                  Inl e \<Rightarrow> (Inl e, evs1)
                | Inr [] \<Rightarrow> (Inl (TypeError ''Cannot read properties of undefined (reading 'total_count')''), evs1)
                | Inr (first # rest) \<Rightarrow>
                   (let total = getProp first ''total_count'';
                        (limitParam, st1) = addParam (JNum limit) st;
                        (offsetParam, st2) = addParam (JNum offset) st1;
                        finalQuery = finalQueryOf (whereClause st2) limitParam offsetParam;
                        evs2 = evs1 @ [Query finalQuery (params st2)]
                    in case query finalQuery (params st2) of
                         Inl e \<Rightarrow> (Inl e, evs2)
                       | Inr rows \<Rightarrow>
                          if length rows > 0 then
                            (let ids = map (\<lambda>row. toNumber env (getProp row ''id'')) rows;
                                 evs3 = evs2 @ [Hydrate ids userId]
                             in case hydrate ids userId of
                                  Inl e \<Rightarrow> (Inl e, evs3)
                                | Inr ts \<Rightarrow> (Inr \<lparr>totalCount = total, trails = ts\<rparr>, evs3))
                          else (Inr \<lparr>totalCount = total, trails = []\<rparr>, evs2))))"

text \<open>The whole function: \<^verbatim>\<open>catch\<close> logs whatever was thrown and throws a fresh
  \<^verbatim>\<open>Error\<close> with a fixed message, \<^verbatim>\<open>finally\<close> releases the connection.\<close>

definition searchTrails ::
  "env \<Rightarrow> (string \<Rightarrow> jsval list \<Rightarrow> error + row list) \<Rightarrow> (jsnum list \<Rightarrow> jsval \<Rightarrow> error + 'trail list)
   \<Rightarrow> string option \<Rightarrow> rat \<Rightarrow> rat \<Rightarrow> filters option \<Rightarrow> jsval \<Rightarrow> string
   \<Rightarrow> (error + 'trail page) \<times> event list" where
  "searchTrails env query hydrate searchTerm pg limit fopt userId unit =
     (case searchBody env query hydrate searchTerm pg limit fopt userId unit of
        (Inl e, evs) \<Rightarrow> (Inl (Error ''Error executing search query''), evs @ [ConsoleError e, Release])
      | (Inr result, evs) \<Rightarrow> (Inr result, evs @ [Release]))"

subsection \<open>A sample environment\<close>

text \<open>
  Modelled from the spec: the field-name lookup table of \<^verbatim>\<open>helpers/objectMaps\<close>, which
  is missing from the sources: "a static mapping from client-facing filter-key to
  underlying storage column expression (unit-qualified for distance/elevation
  fields)". The theorems below hold for every table; this instance serves the
  concrete runs only.
\<close>

definition sampleTable :: "string \<Rightarrow> string option" where
  "sampleTable = map_of
     [(''city'', ''t.city''),
      (''state'', ''t.state''),
      (''minDistanceImperial'', ''ts.distance_imperial''),
      (''maxDistanceImperial'', ''ts.distance_imperial''),
      (''minElevationImperial'', ''ts.elevation_low_imperial''),
      (''maxElevationImperial'', ''ts.elevation_high_imperial'')]"

text \<open>\<^verbatim>\<open>Number\<close> on strings of decimal digits and on strings that hold no number at
  all (blank strings give 0, words give \<^verbatim>\<open>NaN\<close>); the concrete runs use no other.\<close>

definition sampleStringToNumber :: "string \<Rightarrow> jsnum" where
  "sampleStringToNumber s =
     (let t = trim s
      in if t = [] then Fin 0
         else if list_all (\<lambda>c. 48 \<le> (of_char c :: nat) \<and> (of_char c :: nat) \<le> 57) t
         then Fin (of_nat (foldl (\<lambda>a c. 10 * a + (of_char c - 48)) 0 t))
         else NaN)"

definition sampleEnv :: env where
  "sampleEnv = \<lparr>jsToSqlFilters = sampleTable, stringToNumber = sampleStringToNumber\<rparr>"

subsection \<open>Notions used to state the properties\<close>

text \<open>A run of \<^verbatim>\<open>addParam\<close> over a sequence of values, keeping the tokens it returns.\<close>

fun addParams :: "jsval list \<Rightarrow> sstate \<Rightarrow> string list \<times> sstate" where
  "addParams [] st = ([], st)"
| "addParams (v # vs) st =
     (let (token, st1) = addParam v st;
          (tokens, st2) = addParams vs st1
      in (token # tokens, st2))"

text \<open>The counter and the parameter list are in step.\<close>

definition binderInv :: "sstate \<Rightarrow> bool" where
  "binderInv st = (paramCount st = length (params st))"

text \<open>The keys that the loop body tests for by name before its last \<^verbatim>\<open>else\<close>.\<close>

definition structuredKeys :: "string list" where
  "structuredKeys = [''features'', ''difficulty'', ''type'', ''minDistance'', ''maxDistance'',
     ''minElevation'', ''maxElevation'', ''minElevationLoss'', ''maxElevationLoss'',
     ''minElevationGain'', ''maxElevationGain'']"

text \<open>
  The meaning of the subquery of lines 100 to 107 over the join of
  \<^verbatim>\<open>trail_features\<close> and \<^verbatim>\<open>features\<close>, given as rows \<open>(trail_id, feature_name)\<close>: the rows
  whose name is one of the bound array are grouped by trail, and a group is kept when
  the number of its distinct lower-cased names is the number written into the query.
  A trail without such a row has no group.
\<close>

definition sql_lower :: "string \<Rightarrow> string" where
  "sql_lower s = map (\<lambda>c. if 65 \<le> (of_char c :: nat) \<and> (of_char c :: nat) \<le> 90
                            then char_of ((of_char c :: nat) + 32) else c) s"

definition featuresSubquery :: "(int \<times> string) list \<Rightarrow> string list \<Rightarrow> nat \<Rightarrow> int \<Rightarrow> bool" where
  "featuresSubquery joined wanted n t =
     (let grp = filter (\<lambda>(trail_id, feature_name). trail_id = t \<and> feature_name \<in> set wanted) joined
      in grp \<noteq> [] \<and> length (remdups (map (\<lambda>(trail_id, feature_name). sql_lower feature_name) grp)) = n)"

text \<open>
  What the claim on unit-qualified distance keys says of one such key: a direct
  equality predicate on the key's column, with the value bound under the next
  token, when the table has a column for it, and nothing otherwise.
\<close>

definition equalityStep :: "env \<Rightarrow> string \<Rightarrow> sstate \<Rightarrow> sstate" where
  "equalityStep env key st =
     (if truthyStr (jsToSqlFilters env key)
      then st\<lparr>params := params st @ [getProp (filters st) key],
              paramCount := paramCount st + 1,
              whereClause := whereClause st @ ''AND '' @ interp (jsToSqlFilters env key)
                               @ '' = '' @ ''$'' @ show_nat (paramCount st + 1)\<rparr>
      else st)"

text \<open>A distance key with a unit suffix: \<^verbatim>\<open>minDistance\<close> or \<^verbatim>\<open>maxDistance\<close> followed by at
  least one more character.\<close>

definition unitQualifiedDistanceKey :: "string \<Rightarrow> bool" where
  "unitQualifiedDistanceKey k =
     ((startsWith k ''minDistance'' \<or> startsWith k ''maxDistance'') \<and> 11 < length k)"

text \<open>Two query engines for the concrete runs: one that counts no match and returns
  no row, one that counts a match and returns the row of trail 1.\<close>

definition emptyStore :: "string \<Rightarrow> jsval list \<Rightarrow> error + row list" where
  "emptyStore sql ps =
     (if startsWith sql ''SELECT COUNT'' then Inr [[(''total_count'', JStr ''0'')]] else Inr [])"

definition oneTrailStore :: "string \<Rightarrow> jsval list \<Rightarrow> error + row list" where
  "oneTrailStore sql ps =
     (if startsWith sql ''SELECT COUNT'' then Inr [[(''total_count'', JStr ''1'')]]
      else Inr [[(''id'', JNum 1)]])"

section \<open>Properties\<close>

subsection \<open>Auxiliary facts\<close>

lemma addParam_eq:
  "addParam v st = (''$'' @ show_nat (paramCount st + 1),
                    st\<lparr>params := params st @ [v], paramCount := paramCount st + 1\<rparr>)"
  by (simp add: addParam_def Let_def)

lemma show_small: "n < 10 \<Longrightarrow> show_nat n = [digit_char n]"
  by (subst show_nat.simps) simp

lemma digit_val: "d < 10 \<Longrightarrow> of_char (digit_char d) - 48 = d"
proof -
  assume "d < 10"
  then have "d \<in> {0,1,2,3,4,5,6,7,8,9}" by auto
  then show ?thesis by (auto simp: digit_char_def)
qed

text \<open>Reading the digits back gives the number, so different numbers print differently.\<close>

lemma read_show: "foldl (\<lambda>a c. 10 * a + (of_char c - 48)) 0 (show_nat n) = n"
proof (induction n rule: show_nat.induct)
  case (1 n)
  show ?case
  proof (cases "n < 10")
    case True
    then show ?thesis by (subst show_nat.simps) (simp add: digit_val)
  next
    case False
    with 1 have ih: "foldl (\<lambda>a c. 10 * a + (of_char c - 48)) 0 (show_nat (n div 10)) = n div 10"
      by simp
    have "foldl (\<lambda>a c. 10 * a + (of_char c - 48)) 0 (show_nat n)
          = 10 * foldl (\<lambda>a c. 10 * a + (of_char c - 48)) 0 (show_nat (n div 10))
            + (of_char (digit_char (n mod 10)) - 48)"
      using False by (subst show_nat.simps) simp
    also have "\<dots> = 10 * (n div 10) + n mod 10" using ih by (simp add: digit_val)
    finally show ?thesis by simp
  qed
qed

lemma show_nat_inj: "show_nat m = show_nat n \<Longrightarrow> m = n"
  by (metis read_show)

lemma addParams_spec:
  "binderInv st \<Longrightarrow>
   fst (addParams vs st) = map (\<lambda>i. ''$'' @ show_nat (length (params st) + i + 1)) [0..<length vs]
   \<and> params (snd (addParams vs st)) = params st @ vs
   \<and> binderInv (snd (addParams vs st))"
proof (induction vs arbitrary: st)
  case Nil
  then show ?case by simp
next
  case (Cons v vs)
  let ?st1 = "snd (addParam v st)"
  have inv1: "binderInv ?st1"
    using Cons.prems by (simp add: addParam_eq binderInv_def)
  note ih = Cons.IH [OF inv1]
  have unfold: "addParams (v # vs) st
      = (fst (addParam v st) # fst (addParams vs ?st1), snd (addParams vs ?st1))"
    by (simp add: split_beta Let_def)
  have m: "map (\<lambda>i. ''$'' @ show_nat (length (params st) + i + 1)) [0..<length (v # vs)]
        = (''$'' @ show_nat (length (params st) + 1))
          # map (\<lambda>i. ''$'' @ show_nat (length (params ?st1) + i + 1)) [0..<length vs]"
    by (simp add: addParam_eq upt_conv_Cons map_Suc_upt [symmetric] del: upt_Suc)
  show ?case
    using ih Cons.prems unfolding unfold m
    by (simp add: addParam_eq binderInv_def)
qed

text \<open>The loop body, branch by branch.\<close>

lemma filterStep_features:
  "filterStep env unit ''features'' st =
     (case getProp (filters st) ''features'' of
        JArr xs \<Rightarrow> Inr (st\<lparr>params := params st @ [JArr xs], paramCount := paramCount st + 1,
                       whereClause := whereClause st
                         @ featuresFragment (''$'' @ show_nat (paramCount st + 1)) (length xs)\<rparr>)
      | _ \<Rightarrow> Inl (Error ''Features filter must be an array''))"
  unfolding filterStep_def by (simp add: addParam_eq split: jsval.splits)

lemma filterStep_difficulty:
  "filterStep env unit ''difficulty'' st =
     Inr (st\<lparr>params := params st @ [getProp (filters st) ''difficulty''], paramCount := paramCount st + 1,
            whereClause := whereClause st @ indent 24 @ ''AND t.difficulty = ANY(''
               @ ''$'' @ show_nat (paramCount st + 1) @ ''::text[])'' @ indent 20\<rparr>)"
  unfolding filterStep_def by (simp add: addParam_eq)

lemma filterStep_type:
  "filterStep env unit ''type'' st =
     Inr (st\<lparr>params := params st @ [getProp (filters st) ''type''], paramCount := paramCount st + 1,
            whereClause := whereClause st @ indent 24 @ ''AND ts.type = ANY(''
               @ ''$'' @ show_nat (paramCount st + 1) @ ''::text[])'' @ indent 20\<rparr>)"
  unfolding filterStep_def by (simp add: addParam_eq)

lemma filterStep_distance:
  assumes "key = ''minDistance'' \<or> key = ''maxDistance''"
  shows "filterStep env unit key st =
     (if \<not> truthy (getProp (filters st) key) then Inr st
      else (case addDistanceFilters env unit key st of
              Inl e \<Rightarrow> Inl e
            | Inr (fragment, st') \<Rightarrow> Inr (st'\<lparr>whereClause := whereClause st' @ fragment\<rparr>)))"
  using assms unfolding filterStep_def by auto

lemma filterStep_elevation:
  assumes "key \<in> set [''minElevation'', ''maxElevation'', ''minElevationLoss'',
                          ''maxElevationLoss'', ''minElevationGain'', ''maxElevationGain'']"
  shows "filterStep env unit key st =
     (if \<not> truthy (getProp (filters st) key) then Inr st
      else (case addElevationFilters env unit key st of
              Inl e \<Rightarrow> Inl e
            | Inr (fragment, st') \<Rightarrow> Inr (st'\<lparr>whereClause := whereClause st' @ fragment\<rparr>)))"
  using assms unfolding filterStep_def by auto

text \<open>In the last branch the test \<^verbatim>\<open>Number(v) != NaN\<close> holds for every value, so the
  branch always appends the plain equality.\<close>

lemma filterStep_generic:
  assumes "key \<notin> set structuredKeys"
  shows "filterStep env unit key st =
     (if truthyStr (jsToSqlFilters env key)
      then Inr (st\<lparr>params := params st @ [getProp (filters st) key],
                    paramCount := paramCount st + 1,
                    whereClause := whereClause st @ ''AND '' @ interp (jsToSqlFilters env key)
                                     @ '' = '' @ ''$'' @ show_nat (paramCount st + 1)\<rparr>)
      else Inr st)"
proof -
  have neq: "num_neq (toNumber env (getProp (filters st) key)) NaN"
    by (cases "toNumber env (getProp (filters st) key)") simp_all
  from assms have k: "key \<noteq> ''features''" "key \<noteq> ''difficulty''" "key \<noteq> ''type''"
    "key \<noteq> ''minDistance''" "key \<noteq> ''maxDistance''"
    "key \<noteq> ''minElevation''" "key \<noteq> ''maxElevation''" "key \<noteq> ''minElevationLoss''"
    "key \<noteq> ''maxElevationLoss''" "key \<noteq> ''minElevationGain''" "key \<noteq> ''maxElevationGain''"
    by (simp_all add: structuredKeys_def)
  show ?thesis
    unfolding filterStep_def using k neq by (simp add: addParam_eq)
qed

text \<open>The counter stays in step with the parameter list through the whole
  predicate phase.\<close>

lemma addElevationFilters_inv:
  "binderInv st \<Longrightarrow> addElevationFilters env unit key st = Inr (frag, st') \<Longrightarrow> binderInv st'"
  by (auto simp: addElevationFilters_def Let_def addParam_eq binderInv_def split: if_splits)

lemma addDistanceFilters_inv:
  "binderInv st \<Longrightarrow> addDistanceFilters env unit key st = Inr (frag, st') \<Longrightarrow> binderInv st'"
  unfolding addDistanceFilters_def Let_def addParam_eq binderInv_def
  by (simp split: if_splits) auto

lemma filterStep_inv:
  assumes "binderInv st" "filterStep env unit key st = Inr st'"
  shows "binderInv st'"
proof -
  consider (f) "key = ''features''" | (d) "key = ''difficulty''" | (t) "key = ''type''"
    | (dist) "key = ''minDistance'' \<or> key = ''maxDistance''"
    | (elev) "key \<in> set [''minElevation'', ''maxElevation'', ''minElevationLoss'',
                          ''maxElevationLoss'', ''minElevationGain'', ''maxElevationGain'']"
    | (gen) "key \<notin> set structuredKeys"
    by (auto simp: structuredKeys_def)
  then show ?thesis
  proof cases
    case f
    with assms show ?thesis
      by (auto simp: filterStep_features binderInv_def split: jsval.splits)
  next
    case d
    with assms show ?thesis by (auto simp: filterStep_difficulty binderInv_def)
  next
    case t
    with assms show ?thesis by (auto simp: filterStep_type binderInv_def)
  next
    case dist
    show ?thesis
    proof (cases "truthy (getProp (filters st) key)")
      case False
      with assms dist show ?thesis by (simp add: filterStep_distance)
    next
      case True
      with assms(2) dist obtain frag st0 where
        b: "addDistanceFilters env unit key st = Inr (frag, st0)"
        and s: "st' = st0\<lparr>whereClause := whereClause st0 @ frag\<rparr>"
        by (auto simp: filterStep_distance split: sum.splits)
      from addDistanceFilters_inv [OF assms(1) b] s show ?thesis
        by (simp add: binderInv_def)
    qed
  next
    case elev
    show ?thesis
    proof (cases "truthy (getProp (filters st) key)")
      case False
      with assms elev show ?thesis by (simp add: filterStep_elevation)
    next
      case True
      with assms(2) elev obtain frag st0 where
        b: "addElevationFilters env unit key st = Inr (frag, st0)"
        and s: "st' = st0\<lparr>whereClause := whereClause st0 @ frag\<rparr>"
        by (auto simp: filterStep_elevation simp del: set_simps split: sum.splits)
      from addElevationFilters_inv [OF assms(1) b] s show ?thesis
        by (simp add: binderInv_def)
    qed
  next
    case gen
    with assms show ?thesis
      by (auto simp: filterStep_generic binderInv_def split: if_splits)
  qed
qed

lemma composeLoop_inv:
  "binderInv st \<Longrightarrow> composeLoop env unit keys st = Inr st' \<Longrightarrow> binderInv st'"
proof (induction keys arbitrary: st)
  case Nil
  then show ?case by simp
next
  case (Cons key keys)
  from Cons.prems(2) obtain st1 where
    s1: "filterStep env unit key st = Inr st1" and r: "composeLoop env unit keys st1 = Inr st'"
    by (auto split: sum.splits)
  from filterStep_inv [OF Cons.prems(1) s1] have "binderInv st1" .
  from Cons.IH [OF this r] show ?case .
qed

lemma textPhase_inv: "binderInv st \<Longrightarrow> binderInv (textPhase term st)"
  by (auto simp: textPhase_def Let_def addParam_eq binderInv_def split: option.splits)

lemma composePredicate_inv:
  assumes a: "composePredicate env unit term fopt = Inr st"
  shows "binderInv st"
proof -
  have i0: "binderInv (textPhase term initialState)"
    by (rule textPhase_inv) (simp add: binderInv_def initialState_def)
  show ?thesis
  proof (cases fopt)
    case None
    with a i0 show ?thesis by (simp add: composePredicate_def)
  next
    case (Some fs)
    have "binderInv ((textPhase term initialState)\<lparr>filters := fs\<rparr>)"
      using i0 by (simp add: binderInv_def)
    moreover from a Some
    have "composeLoop env unit (objectKeys fs) ((textPhase term initialState)\<lparr>filters := fs\<rparr>) = Inr st"
      by (simp add: composePredicate_def)
    ultimately show ?thesis by (rule composeLoop_inv)
  qed
qed

text \<open>The sanitizer on a term of white space only.\<close>

lemma split_space_chars: "w \<in> set (split_space s) \<Longrightarrow> set w \<subseteq> set s"
proof (induction s arbitrary: w)
  case Nil
  then show ?case by simp
next
  case (Cons c cs)
  show ?case
  proof (cases "c = CHR '' ''")
    case True
    with Cons show ?thesis by auto
  next
    case False
    show ?thesis
    proof (cases "split_space cs")
      case Nil
      with Cons.prems False show ?thesis by simp
    next
      case (Cons v vs)
      with Cons.prems False have "w = c # v \<or> w \<in> set vs" by simp
      then show ?thesis
      proof
        assume "w = c # v"
        moreover have "set v \<subseteq> set cs" using Cons.IH [of v] Cons by simp
        ultimately show ?thesis by auto
      next
        assume "w \<in> set vs"
        then have "set w \<subseteq> set cs" using Cons.IH [of w] Cons by simp
        then show ?thesis by auto
      qed
    qed
  qed
qed

lemma trim_all_space: "\<forall>c\<in>set w. is_space c \<Longrightarrow> trim w = []"
proof -
  assume "\<forall>c\<in>set w. is_space c"
  then have d: "dropWhile is_space w = []" by (induction w) simp_all
  show ?thesis unfolding trim_def d by simp
qed

lemma sanitize_blank:
  assumes "\<forall>c\<in>set s. is_space c"
  shows "sanitizeSearchTerm s = []"
proof -
  have "filter (\<lambda>word. trim word \<noteq> []) (split_space s) = []"
  proof -
    have "\<forall>w\<in>set (split_space s). trim w = []"
      using assms split_space_chars by (blast intro: trim_all_space)
    then show ?thesis by (simp add: filter_empty_conv)
  qed
  then show ?thesis by (simp add: sanitizeSearchTerm_def)
qed

lemma textPhase_blank:
  assumes "s \<noteq> []" "\<forall>c\<in>set s. is_space c"
  shows "textPhase (Some s) st =
           st\<lparr>params := params st @ [JStr ''%%''], paramCount := paramCount st + 1,
              whereClause := whereClause st @ textFragment (''$'' @ show_nat (paramCount st + 1))\<rparr>"
  using assms by (simp add: textPhase_def sanitize_blank addParam_eq)

lemma textPhase_params:
  "s \<noteq> [] \<Longrightarrow> params (textPhase (Some s) st) = params st @ [JStr (''%'' @ sanitizeSearchTerm s @ ''%'')]"
  by (simp add: textPhase_def Let_def addParam_eq)

text \<open>Reads of the filter object after an assignment or a \<^verbatim>\<open>delete\<close>.\<close>

lemma map_of_setProp: "map_of (setProp fs k v) k' = (if k' = k then Some v else map_of fs k')"
  by (induction fs) auto

lemma getProp_setProp: "getProp (setProp fs k v) k' = (if k' = k then v else getProp fs k')"
  by (simp add: getProp_def map_of_setProp)

lemma map_of_deleteProp: "map_of (deleteProp fs k) k' = (if k' = k then None else map_of fs k')"
  by (induction fs) (auto simp: deleteProp_def)

lemma truthy_present: "truthy (getProp fs k) \<Longrightarrow> map_of fs k \<noteq> None"
  by (cases "map_of fs k") (simp_all add: getProp_def)

text \<open>The distance step binds two parameters exactly in its paired branch.\<close>

lemma distance_pair_iff:
  assumes k: "key = ''minDistance'' \<or> key = ''maxDistance''"
    and r: "filterStep env unit key st = Inr st'"
  shows "(length (params st') = length (params st) + 2) =
         (truthy (getProp (filters st) key) \<and>
          truthy (getProp (filters st)
                    (if key = ''minDistance'' then ''maxDistance'' @ unit else ''minDistance'' @ unit)))"
proof (cases "truthy (getProp (filters st) key)")
  case False
  with k r show ?thesis by (simp add: filterStep_distance)
next
  case True
  from k show ?thesis
  proof
    assume "key = ''minDistance''"
    with r True show ?thesis
      unfolding filterStep_distance [OF k]
      by (auto simp: addDistanceFilters_def startsWith_def Let_def addParam_eq split: if_splits)
  next
    assume "key = ''maxDistance''"
    with r True show ?thesis
      unfolding filterStep_distance [OF k]
      by (auto simp: addDistanceFilters_def startsWith_def Let_def addParam_eq split: if_splits)
  qed
qed

lemma distance_pair_outcome:
  assumes k: "key = ''minDistance'' \<or> key = ''maxDistance''"
    and r: "filterStep env unit key st = Inr st'"
    and t1: "truthy (getProp (filters st) key)"
    and t2: "truthy (getProp (filters st)
                    (if key = ''minDistance'' then ''maxDistance'' @ unit else ''minDistance'' @ unit))"
  shows "whereClause st' = whereClause st @ '' AND '' @ interp (jsToSqlFilters env (key @ unit))
            @ '' BETWEEN $'' @ show_nat (paramCount st + 1)
            @ '' AND $'' @ show_nat (paramCount st + 2) @ '' ''
       \<and> params st' = params st @
            (let a = getProp (filters st) key;
                 b = getProp (filters st) (if key = ''minDistance'' then ''maxDistance'' else ''minDistance'')
             in if js_gt env a b then [b, a] else [a, b])
       \<and> map_of (filters st') ''minDistance'' = None
       \<and> map_of (filters st') ''maxDistance'' = None"
  using k
proof
  assume "key = ''minDistance''"
  with r t1 t2 show ?thesis
    unfolding filterStep_distance [OF k]
    by (auto simp: addDistanceFilters_def startsWith_def Let_def addParam_eq getProp_setProp
                   map_of_deleteProp split: if_splits)
next
  assume "key = ''maxDistance''"
  with r t1 t2 show ?thesis
    unfolding filterStep_distance [OF k]
    by (auto simp: addDistanceFilters_def startsWith_def Let_def addParam_eq getProp_setProp
                   map_of_deleteProp split: if_splits)
qed

lemma unit_qualified_not_structured:
  assumes "u \<noteq> []" "key = ''minDistance'' @ u \<or> key = ''maxDistance'' @ u"
  shows "key \<notin> set structuredKeys"
  using assms by (auto simp: structuredKeys_def)

text \<open>The sample table at the keys of the concrete runs.\<close>

lemma sample_min: "jsToSqlFilters sampleEnv ''minDistanceImperial'' = Some ''ts.distance_imperial''"
  and sample_max: "jsToSqlFilters sampleEnv ''maxDistanceImperial'' = Some ''ts.distance_imperial''"
  and sample_city: "jsToSqlFilters sampleEnv ''city'' = Some ''t.city''"
  and sample_elev: "jsToSqlFilters sampleEnv ''minElevationImperial'' = Some ''ts.elevation_low_imperial''"
  by (simp_all add: sampleEnv_def sampleTable_def)

text \<open>The second query of a run that reaches it: the limit and the offset take the
  two tokens after those of the predicate phase.\<close>

lemma final_query_event:
  assumes "composePredicate env unit searchTerm fopt = Inr st"
    and "query (countQueryOf (whereClause st)) (params st) = Inr (first # rest)"
  shows "Query (finalQueryOf (whereClause st) (''$'' @ show_nat (paramCount st + 1))
                   (''$'' @ show_nat (paramCount st + 2)))
               (params st @ [JNum limit, JNum ((pg - 1) * limit)])
         \<in> set (snd (searchTrails env query hydrate searchTerm pg limit fopt userId unit))"
  using assms unfolding searchTrails_def searchBody_def Let_def addParam_eq
  by (auto split: sum.splits)

text \<open>The count query and the id query differ in their first characters, which is
  how the two sample engines tell them apart.\<close>

lemma count_query_head: "startsWith (countQueryOf wc) ''SELECT COUNT''"
  by (simp add: countQueryOf_def startsWith_def)

lemma final_query_head: "\<not> startsWith (finalQueryOf wc l off) ''SELECT COUNT''"
  by (simp add: finalQueryOf_def baseQuery_def indent_def startsWith_def)

text \<open>A run whose id query returns no row.\<close>

lemma searchTrails_no_rows:
  assumes "composePredicate env unit searchTerm fopt = Inr st"
    and "query (countQueryOf (whereClause st)) (params st) = Inr (first # rest)"
    and "query (finalQueryOf (whereClause st) (''$'' @ show_nat (paramCount st + 1)) (''$'' @ show_nat (paramCount st + 2)))
               (params st @ [JNum limit, JNum ((pg - 1) * limit)]) = Inr []"
  shows "searchTrails env query hydrate searchTerm pg limit fopt userId unit =
     (Inr \<lparr>totalCount = getProp first ''total_count'', trails = []\<rparr>,
      [Query (countQueryOf (whereClause st)) (params st),
       Query (finalQueryOf (whereClause st) (''$'' @ show_nat (paramCount st + 1)) (''$'' @ show_nat (paramCount st + 2)))
               (params st @ [JNum limit, JNum ((pg - 1) * limit)]),
       Release])"
  using assms by (simp add: searchTrails_def searchBody_def Let_def addParam_eq)

text \<open>Hydration happens at one place only, after an id query that returned rows.\<close>

lemma searchBody_hydrate:
  assumes "Hydrate ids u \<in> set (snd (searchBody env query hydrate searchTerm pg limit fopt userId unit))"
  shows "ids \<noteq> [] \<and> u = userId
         \<and> (\<exists>q ps rows. Query q ps \<in> set (snd (searchBody env query hydrate searchTerm pg limit fopt userId unit))
               \<and> query q ps = Inr rows \<and> rows \<noteq> []
               \<and> ids = map (\<lambda>row. toNumber env (getProp row ''id'')) rows)"
  using assms unfolding searchBody_def Let_def addParam_eq
  by (auto split: sum.splits list.splits if_splits)

lemma searchTrails_events:
  "set (snd (searchTrails env query hydrate searchTerm pg limit fopt userId unit))
     \<subseteq> set (snd (searchBody env query hydrate searchTerm pg limit fopt userId unit))
        \<union> {Release} \<union> range ConsoleError"
  by (auto simp: searchTrails_def split: prod.splits sum.splits)

lemma searchBody_events:
  "set (snd (searchBody env query hydrate searchTerm pg limit fopt userId unit))
     \<subseteq> set (snd (searchTrails env query hydrate searchTerm pg limit fopt userId unit))"
  by (auto simp: searchTrails_def split: prod.splits sum.splits)

text \<open>Concrete runs on the sample environment.\<close>

lemma one_trail_run:
  "searchTrails sampleEnv oneTrailStore (\<lambda>ids u. Inr [''Trail 1'']) None 1 10 None JNull ''Imperial''
   = (Inr \<lparr>totalCount = JStr ''1'', trails = [''Trail 1'']\<rparr>,
      [Query (countQueryOf '' WHERE 1=1 '') [],
       Query (finalQueryOf '' WHERE 1=1 '' ''$1'' ''$2'') [JNum 10, JNum 0],
       Hydrate [Fin 1] JNull, Release])"
  by (simp add: searchTrails_def searchBody_def composePredicate_def textPhase_def initialState_def
        Let_def addParam_eq oneTrailStore_def count_query_head final_query_head getProp_def
        show_small digit_char_def)

lemma empty_run:
  "searchTrails sampleEnv emptyStore (\<lambda>ids u. Inr [''Trail 1'']) None 1 10 None JNull ''Imperial''
   = (Inr \<lparr>totalCount = JStr ''0'', trails = []\<rparr>,
      [Query (countQueryOf '' WHERE 1=1 '') [],
       Query (finalQueryOf '' WHERE 1=1 '' ''$1'' ''$2'') [JNum 10, JNum 0],
       Release])"
  by (simp add: searchTrails_def searchBody_def composePredicate_def textPhase_def initialState_def
        Let_def addParam_eq emptyStore_def count_query_head final_query_head getProp_def
        show_small digit_char_def)

lemma mixed_pair_run:
  "filterStep sampleEnv ''Imperial'' ''minDistance''
     \<lparr>filters = [(''minDistance'', JNum 10), (''maxDistance'', JNum 2), (''maxDistanceImperial'', JNum 2)],
      params = [], paramCount = 0, whereClause = '' WHERE 1=1 ''\<rparr>
   = Inr \<lparr>filters = [(''maxDistanceImperial'', JNum 2)],
          params = [JNum 2, JNum 10], paramCount = 2,
          whereClause = '' WHERE 1=1  AND ts.distance_imperial BETWEEN $1 AND $2 ''\<rparr>"
  by (simp add: filterStep_distance addDistanceFilters_def startsWith_def Let_def addParam_eq
        getProp_def deleteProp_def js_gt_def sample_min sample_max show_small digit_char_def)

text \<open>
  The subquery keeps a trail only if the trail has every listed feature: the kept
  group has as many distinct lower-cased names as the array has elements, all of
  them among the array's elements, so they are all of them.
\<close>

lemma features_all_listed:
  assumes "featuresSubquery joined xs (length xs) t"
  shows "\<forall>x\<in>set xs. (t, x) \<in> set joined"
proof -
  define names where "names = {name. (t, name) \<in> set joined \<and> name \<in> set xs}"
  define grp where "grp = filter (\<lambda>(trail_id, feature_name). trail_id = t \<and> feature_name \<in> set xs) joined"
  have fin: "finite names" unfolding names_def by simp
  have img: "set (map (\<lambda>(trail_id, feature_name). sql_lower feature_name) grp) = sql_lower ` names"
    unfolding grp_def names_def by (auto simp: image_iff)
  from assms have "length (remdups (map (\<lambda>(trail_id, feature_name). sql_lower feature_name) grp)) = length xs"
    by (simp add: featuresSubquery_def Let_def grp_def)
  then have c: "card (sql_lower ` names) = length xs"
    using img by (metis length_remdups_card_conv)
  have sub: "names \<subseteq> set xs" unfolding names_def by auto
  have a1: "card (sql_lower ` names) \<le> card names" using fin by (rule card_image_le)
  have a2: "card names \<le> card (set xs)" using sub by (simp add: card_mono)
  have a3: "card (set xs) \<le> length xs" by (rule card_length)
  from c a1 a2 a3 have "card names = card (set xs)" by linarith
  with sub have "names = set xs" by (simp add: card_subset_eq)
  then show ?thesis unfolding names_def by auto
qed

text \<open>The loop over keys that all fall to the last branch, the loop cut at a key,
  and the first query of a search.\<close>

lemma filterStep_equality:
  "key \<notin> set structuredKeys \<Longrightarrow> filterStep env unit key st = Inr (equalityStep env key st)"
  by (simp add: filterStep_generic equalityStep_def)

lemma unitQualified_suffix:
  assumes "unitQualifiedDistanceKey k"
  shows "\<exists>u. u \<noteq> [] \<and> (k = ''minDistance'' @ u \<or> k = ''maxDistance'' @ u)"
proof -
  have len: "length ''minDistance'' = 11" "length ''maxDistance'' = 11" by simp_all
  from assms have l: "11 < length k"
    and p: "take 11 k = ''minDistance'' \<or> take 11 k = ''maxDistance''"
    unfolding unitQualifiedDistanceKey_def startsWith_def len by blast+
  have "k = take 11 k @ drop 11 k" by simp
  moreover from l have "drop 11 k \<noteq> []" by simp
  ultimately show ?thesis using p by metis
qed

lemma unitQualified_not_structured:
  "unitQualifiedDistanceKey k \<Longrightarrow> k \<notin> set structuredKeys"
  using unitQualified_suffix unit_qualified_not_structured by blast

lemma composeLoop_equalities:
  "\<forall>k\<in>set keys. k \<notin> set structuredKeys \<Longrightarrow>
   composeLoop env unit keys st = Inr (foldl (\<lambda>s k. equalityStep env k s) st keys)"
  by (induction keys arbitrary: st) (simp_all add: filterStep_equality)

lemma composeLoop_append:
  "composeLoop env unit (xs @ ys) st =
     (case composeLoop env unit xs st of Inl e \<Rightarrow> Inl e | Inr s \<Rightarrow> composeLoop env unit ys s)"
  by (induction xs arbitrary: st) (simp_all split: sum.splits)

lemma composePredicate_at:
  assumes "objectKeys fs = pre @ k # post"
    and "composeLoop env unit pre ((textPhase searchTerm initialState)\<lparr>filters := fs\<rparr>) = Inr st"
  shows "composePredicate env unit searchTerm (Some fs) = composeLoop env unit (k # post) st"
  using assms by (simp add: composePredicate_def composeLoop_append)

lemma count_query_event:
  assumes "composePredicate env unit searchTerm fopt = Inr st"
  shows "Query (countQueryOf (whereClause st)) (params st)
         \<in> set (snd (searchTrails env query hydrate searchTerm pg limit fopt userId unit))"
  using assms unfolding searchTrails_def searchBody_def Let_def addParam_eq
  by (auto split: sum.splits list.splits)

lemma num_gt_nan: "\<not> num_gt x NaN"
  by (cases x) simp_all

lemma js_gt_undef: "\<not> js_gt env a JUndef"
  by (cases a) (simp_all add: js_gt_def num_gt_nan)

lemma getProp_present: "getProp fs k \<noteq> JUndef \<Longrightarrow> map_of fs k \<noteq> None"
  by (cases "map_of fs k") (simp_all add: getProp_def)

lemma addDistanceFilters_dom:
  assumes "key = ''minDistance'' \<or> key = ''maxDistance''"
    and "truthy (getProp (filters st) key)"
    and "addDistanceFilters env unit key st = Inr (frag, st')"
    and "map_of (filters st') k \<noteq> None"
  shows "map_of (filters st) k \<noteq> None"
proof -
  from assms(2) have pk: "map_of (filters st) key \<noteq> None" by (rule truthy_present)
  have other: "js_gt env a (getProp (filters st) b) \<Longrightarrow> map_of (filters st) b \<noteq> None" for a b
    using js_gt_undef [of env a] getProp_present [of "filters st" b] by metis
  from assms(1) show ?thesis
  proof
    assume "key = ''minDistance''"
    with assms(3,4) pk other [of "getProp (filters st) ''minDistance''" "''maxDistance''"] show ?thesis
      by (auto simp: addDistanceFilters_def startsWith_def Let_def addParam_eq
                     map_of_deleteProp map_of_setProp split: if_splits)
  next
    assume "key = ''maxDistance''"
    with assms(3,4) pk other [of "getProp (filters st) ''maxDistance''" "''minDistance''"] show ?thesis
      by (auto simp: addDistanceFilters_def startsWith_def Let_def addParam_eq
                     map_of_deleteProp map_of_setProp split: if_splits)
  qed
qed

text \<open>The loop never adds a key to the filter object, and it changes no value
  other than those under \<^verbatim>\<open>minDistance\<close> and \<^verbatim>\<open>maxDistance\<close>.\<close>

lemma getProp_deleteProp: "getProp (deleteProp fs k) k' = (if k' = k then JUndef else getProp fs k')"
  by (simp add: getProp_def map_of_deleteProp)

lemma addElevationFilters_filters:
  "addElevationFilters env unit key st = Inr (frag, st') \<Longrightarrow> filters st' = filters st"
  by (auto simp: addElevationFilters_def Let_def addParam_eq split: if_splits)

lemma filterStep_filters:
  assumes "key \<noteq> ''minDistance''" "key \<noteq> ''maxDistance''" "filterStep env unit key st = Inr st'"
  shows "filters st' = filters st"
proof -
  consider (f) "key = ''features''" | (d) "key = ''difficulty''" | (t) "key = ''type''"
    | (elev) "key \<in> set [''minElevation'', ''maxElevation'', ''minElevationLoss'',
                          ''maxElevationLoss'', ''minElevationGain'', ''maxElevationGain'']"
    | (gen) "key \<notin> set structuredKeys"
    using assms(1,2) by (auto simp: structuredKeys_def)
  then show ?thesis
  proof cases
    case f
    with assms(3) show ?thesis by (auto simp: filterStep_features split: jsval.splits)
  next
    case d
    with assms(3) show ?thesis by (auto simp: filterStep_difficulty)
  next
    case t
    with assms(3) show ?thesis by (auto simp: filterStep_type)
  next
    case elev
    show ?thesis
    proof (cases "truthy (getProp (filters st) key)")
      case False
      with assms(3) elev show ?thesis by (simp add: filterStep_elevation)
    next
      case True
      with assms(3) elev obtain frag st0 where
        b: "addElevationFilters env unit key st = Inr (frag, st0)"
        and s: "st' = st0\<lparr>whereClause := whereClause st0 @ frag\<rparr>"
        by (auto simp: filterStep_elevation simp del: set_simps split: sum.splits)
      from addElevationFilters_filters [OF b] s show ?thesis by simp
    qed
  next
    case gen
    with assms(3) show ?thesis by (auto simp: filterStep_generic split: if_splits)
  qed
qed

lemma addDistanceFilters_keeps:
  assumes "key = ''minDistance'' \<or> key = ''maxDistance''"
    and "k \<noteq> ''minDistance''" "k \<noteq> ''maxDistance''"
    and "addDistanceFilters env unit key st = Inr (frag, st')"
  shows "getProp (filters st') k = getProp (filters st) k"
  using assms(1)
proof
  assume "key = ''minDistance''"
  with assms(2-) show ?thesis
    by (auto simp: addDistanceFilters_def startsWith_def Let_def addParam_eq
                   getProp_deleteProp getProp_setProp split: if_splits)
next
  assume "key = ''maxDistance''"
  with assms(2-) show ?thesis
    by (auto simp: addDistanceFilters_def startsWith_def Let_def addParam_eq
                   getProp_deleteProp getProp_setProp split: if_splits)
qed

lemma filterStep_distance_cases:
  assumes "key = ''minDistance'' \<or> key = ''maxDistance''" "filterStep env unit key st = Inr st'"
  obtains (skip) "st' = st"
    | (built) frag st0 where "truthy (getProp (filters st) key)"
        "addDistanceFilters env unit key st = Inr (frag, st0)"
        "st' = st0\<lparr>whereClause := whereClause st0 @ frag\<rparr>"
proof (cases "truthy (getProp (filters st) key)")
  case False
  with assms have "st' = st" by (simp add: filterStep_distance)
  then show ?thesis by (rule skip)
next
  case True
  with assms obtain frag st0 where
    "addDistanceFilters env unit key st = Inr (frag, st0)"
    "st' = st0\<lparr>whereClause := whereClause st0 @ frag\<rparr>"
    by (auto simp: filterStep_distance split: sum.splits)
  with True show ?thesis by (rule built)
qed

lemma filterStep_dom:
  assumes "filterStep env unit key st = Inr st'" "map_of (filters st') k \<noteq> None"
  shows "map_of (filters st) k \<noteq> None"
proof (cases "key = ''minDistance'' \<or> key = ''maxDistance''")
  case False
  with filterStep_filters [OF _ _ assms(1)] assms(2) show ?thesis by simp
next
  case True
  from True assms(1) show ?thesis
  proof (cases rule: filterStep_distance_cases)
    case skip
    with assms(2) show ?thesis by simp
  next
    case (built frag st0)
    from built(3) assms(2) have "map_of (filters st0) k \<noteq> None" by simp
    from addDistanceFilters_dom [OF True built(1) built(2) this] show ?thesis .
  qed
qed

lemma filterStep_keeps:
  assumes "k \<noteq> ''minDistance''" "k \<noteq> ''maxDistance''" "filterStep env unit key st = Inr st'"
  shows "getProp (filters st') k = getProp (filters st) k"
proof (cases "key = ''minDistance'' \<or> key = ''maxDistance''")
  case False
  with filterStep_filters [OF _ _ assms(3)] show ?thesis by simp
next
  case True
  from True assms(3) show ?thesis
  proof (cases rule: filterStep_distance_cases)
    case skip
    then show ?thesis by simp
  next
    case (built frag st0)
    from addDistanceFilters_keeps [OF True assms(1,2) built(2)] built(3) show ?thesis by simp
  qed
qed

lemma composeLoop_dom:
  "composeLoop env unit keys st = Inr st' \<Longrightarrow> map_of (filters st') k \<noteq> None
   \<Longrightarrow> map_of (filters st) k \<noteq> None"
proof (induction keys arbitrary: st)
  case Nil
  then show ?case by simp
next
  case (Cons key keys)
  from Cons.prems(1) obtain st1 where
    s1: "filterStep env unit key st = Inr st1" and r: "composeLoop env unit keys st1 = Inr st'"
    by (auto split: sum.splits)
  from Cons.IH [OF r Cons.prems(2)] have "map_of (filters st1) k \<noteq> None" .
  from filterStep_dom [OF s1 this] show ?case .
qed

lemma composeLoop_keeps:
  "k \<noteq> ''minDistance'' \<Longrightarrow> k \<noteq> ''maxDistance'' \<Longrightarrow> composeLoop env unit keys st = Inr st'
   \<Longrightarrow> getProp (filters st') k = getProp (filters st) k"
proof (induction keys arbitrary: st)
  case Nil
  then show ?case by simp
next
  case (Cons key keys)
  from Cons.prems(3) obtain st1 where
    s1: "filterStep env unit key st = Inr st1" and r: "composeLoop env unit keys st1 = Inr st'"
    by (auto split: sum.splits)
  from Cons.IH [OF Cons.prems(1,2) r] filterStep_keeps [OF Cons.prems(1,2) s1] show ?case by simp
qed

lemma equalityStep_filters: "filters (equalityStep env k s) = filters s"
  by (simp add: equalityStep_def)

lemma equalities_filters: "filters (foldl (\<lambda>s k. equalityStep env k s) st keys) = filters st"
  by (induction keys arbitrary: st) (simp_all add: equalityStep_filters)

text \<open>Two more runs of the composer on the sample environment.\<close>

lemma unit_pair_run:
  "composePredicate sampleEnv ''Imperial'' None
     (Some [(''minDistanceImperial'', JNum 10), (''maxDistanceImperial'', JNum 2)])
   = Inr \<lparr>filters = [(''minDistanceImperial'', JNum 10), (''maxDistanceImperial'', JNum 2)],
          params = [JNum 10, JNum 2], paramCount = 2,
          whereClause = '' WHERE 1=1 AND ts.distance_imperial = $1AND ts.distance_imperial = $2''\<rparr>"
proof -
  have g: "''minDistanceImperial'' \<notin> set structuredKeys" "''maxDistanceImperial'' \<notin> set structuredKeys"
    by (simp_all add: structuredKeys_def)
  show ?thesis
    by (simp add: composePredicate_def textPhase_def initialState_def objectKeys_def
        filterStep_generic [OF g(1)] filterStep_generic [OF g(2)] getProp_def
        sample_min sample_max show_small digit_char_def)
qed

lemma mixed_compose_run:
  "composePredicate sampleEnv ''Imperial'' None
     (Some [(''minDistance'', JNum 10), (''maxDistance'', JNum 2), (''maxDistanceImperial'', JNum 2)])
   = Inr \<lparr>filters = [(''maxDistanceImperial'', JNum 2)],
          params = [JNum 2, JNum 10, JNum 2], paramCount = 3,
          whereClause = '' WHERE 1=1  AND ts.distance_imperial BETWEEN $1 AND $2 AND ts.distance_imperial = $3''\<rparr>"
proof -
  have g: "''maxDistanceImperial'' \<notin> set structuredKeys"
    by (simp add: structuredKeys_def)
  have s: "filterStep sampleEnv ''Imperial'' ''maxDistance''
     \<lparr>filters = [(''maxDistanceImperial'', JNum 2)],
          params = [JNum 2, JNum 10], paramCount = 2,
          whereClause = '' WHERE 1=1  AND ts.distance_imperial BETWEEN $1 AND $2 ''\<rparr>
     = Inr \<lparr>filters = [(''maxDistanceImperial'', JNum 2)],
          params = [JNum 2, JNum 10], paramCount = 2,
          whereClause = '' WHERE 1=1  AND ts.distance_imperial BETWEEN $1 AND $2 ''\<rparr>"
    by (simp add: filterStep_distance getProp_def)
  show ?thesis
    by (simp add: composePredicate_def textPhase_def initialState_def objectKeys_def
        mixed_pair_run s filterStep_generic [OF g] getProp_def sample_max show_small digit_char_def)
qed

subsection \<open>The claims\<close>

text \<open>
  C1. The claim reads: for every filter map with both a \<^verbatim>\<open>minDistance\<close> and a
  \<^verbatim>\<open>maxDistance\<close> bound whose minimum exceeds the maximum, the two values are
  swapped, one closed-interval \<^verbatim>\<open>BETWEEN\<close> predicate is emitted and both entries are
  removed. The builder tests the paired bound under its unit-qualified name
  (\<^verbatim>\<open>filters[nextKey]\<close>, line 212) and reads the values under the unitless names
  (lines 213 to 218). This run evaluates the composer on the filter object
  \<^verbatim>\<open>{minDistance: 10, maxDistance: 2}\<close>: two one-sided predicates, 10 bound before 2,
  no swap and no \<^verbatim>\<open>BETWEEN\<close>; and on \<^verbatim>\<open>{minDistanceImperial: 10, maxDistanceImperial: 2}\<close>:
  two equality predicates.
\<close>

theorem unitless_inverted_pair_run:
  "composePredicate sampleEnv ''Imperial'' None
     (Some [(''minDistance'', JNum 10), (''maxDistance'', JNum 2)])
   = Inr \<lparr>filters = [], params = [JNum 10, JNum 2], paramCount = 2,
          whereClause = '' WHERE 1=1  AND ts.distance_imperial >= $1  AND ts.distance_imperial <= $2 ''\<rparr>
   \<and> composePredicate sampleEnv ''Imperial'' None
     (Some [(''minDistanceImperial'', JNum 10), (''maxDistanceImperial'', JNum 2)])
   = Inr \<lparr>filters = [(''minDistanceImperial'', JNum 10), (''maxDistanceImperial'', JNum 2)],
          params = [JNum 10, JNum 2], paramCount = 2,
          whereClause = '' WHERE 1=1 AND ts.distance_imperial = $1AND ts.distance_imperial = $2''\<rparr>"
proof -
  have g: "''minDistanceImperial'' \<notin> set structuredKeys" "''maxDistanceImperial'' \<notin> set structuredKeys"
    by (simp_all add: structuredKeys_def)
  have "composePredicate sampleEnv ''Imperial'' None
     (Some [(''minDistance'', JNum 10), (''maxDistance'', JNum 2)])
   = Inr \<lparr>filters = [], params = [JNum 10, JNum 2], paramCount = 2,
          whereClause = '' WHERE 1=1  AND ts.distance_imperial >= $1  AND ts.distance_imperial <= $2 ''\<rparr>"
    by (simp add: composePredicate_def textPhase_def initialState_def objectKeys_def
        filterStep_distance addDistanceFilters_def startsWith_def Let_def addParam_eq
        getProp_def deleteProp_def sample_min sample_max show_small digit_char_def)
  moreover have "composePredicate sampleEnv ''Imperial'' None
     (Some [(''minDistanceImperial'', JNum 10), (''maxDistanceImperial'', JNum 2)])
   = Inr \<lparr>filters = [(''minDistanceImperial'', JNum 10), (''maxDistanceImperial'', JNum 2)],
          params = [JNum 10, JNum 2], paramCount = 2,
          whereClause = '' WHERE 1=1 AND ts.distance_imperial = $1AND ts.distance_imperial = $2''\<rparr>"
    by (simp add: composePredicate_def textPhase_def initialState_def objectKeys_def
        filterStep_generic [OF g(1)] filterStep_generic [OF g(2)] getProp_def
        sample_min sample_max show_small digit_char_def)
  ultimately show ?thesis by simp
qed

text \<open>
  C2 (as amended). For each of the six elevation keys with a truthy value and a
  non-empty table entry for the unit-qualified key, the elevation builder returns
  one one-sided comparison and binds the raw value once; the comparison is the
  inclusive \<^verbatim>\<open>>=\<close> for a min key and the inclusive \<^verbatim>\<open><=\<close> for a max key (the
  builder appends \<^verbatim>\<open>=\<close> to the operator, line 192), and the loop appends that
  fragment to the WHERE clause.
\<close>

theorem elevation_builder_inclusive:
  assumes "key \<in> set [''minElevation'', ''maxElevation'', ''minElevationLoss'',
                       ''maxElevationLoss'', ''minElevationGain'', ''maxElevationGain'']"
    and "truthy (getProp (filters st) key)"
    and "jsToSqlFilters env (key @ unit) = Some col" and "col \<noteq> []"
  shows "addElevationFilters env unit key st =
           Inr ('' AND '' @ col
                  @ (if key \<in> set [''minElevation'', ''minElevationLoss'', ''minElevationGain'']
                     then '' >= '' else '' <= '')
                  @ ''$'' @ show_nat (paramCount st + 1) @ '' '',
                st\<lparr>params := params st @ [getProp (filters st) key],
                   paramCount := paramCount st + 1\<rparr>)
       \<and> filterStep env unit key st =
           Inr (st\<lparr>params := params st @ [getProp (filters st) key],
                   paramCount := paramCount st + 1,
                   whereClause := whereClause st @ '' AND '' @ col
                     @ (if key \<in> set [''minElevation'', ''minElevationLoss'', ''minElevationGain'']
                        then '' >= '' else '' <= '')
                     @ ''$'' @ show_nat (paramCount st + 1) @ '' ''\<rparr>)"
proof -
  have m: "startsWith key ''min'' = (key \<in> set [''minElevation'', ''minElevationLoss'', ''minElevationGain''])"
  proof -
    from assms(1) have "key = ''minElevation'' \<or> key = ''maxElevation'' \<or> key = ''minElevationLoss''
        \<or> key = ''maxElevationLoss'' \<or> key = ''minElevationGain'' \<or> key = ''maxElevationGain''"
      by simp
    then show ?thesis by (elim disjE) (simp_all add: startsWith_def)
  qed
  have b: "addElevationFilters env unit key st =
           Inr ('' AND '' @ col
                  @ (if key \<in> set [''minElevation'', ''minElevationLoss'', ''minElevationGain'']
                     then '' >= '' else '' <= '')
                  @ ''$'' @ show_nat (paramCount st + 1) @ '' '',
                st\<lparr>params := params st @ [getProp (filters st) key],
                   paramCount := paramCount st + 1\<rparr>)"
    unfolding m [symmetric] addElevationFilters_def Let_def addParam_eq using assms(3,4)
    by simp
  have "filterStep env unit key st =
     (case addElevationFilters env unit key st of
        Inl e \<Rightarrow> Inl e
      | Inr (fragment, st') \<Rightarrow> Inr (st'\<lparr>whereClause := whereClause st' @ fragment\<rparr>))"
    using filterStep_elevation [OF assms(1), of env unit st] assms(2) by (simp only: if_False not_True_eq_False simp_thms)
  then show ?thesis
    by (simp only: b sum.case prod.case simp_thms) simp
qed

text \<open>C2, at a concrete input: a minimum elevation of 500 under the imperial unit.\<close>

theorem elevation_builder_inclusive_witness:
  "filterStep sampleEnv ''Imperial'' ''minElevation''
      \<lparr>filters = [(''minElevation'', JNum 500)], params = [], paramCount = 0,
       whereClause = '' WHERE 1=1 ''\<rparr>
    = Inr \<lparr>filters = [(''minElevation'', JNum 500)], params = [JNum 500], paramCount = 1,
           whereClause = '' WHERE 1=1  AND ts.elevation_low_imperial >= $1 ''\<rparr>"
  using elevation_builder_inclusive [where key = "''minElevation''" and env = sampleEnv
      and unit = "''Imperial''" and col = "''ts.elevation_low_imperial''"
      and st = "\<lparr>filters = [(''minElevation'', JNum 500)], params = [], paramCount = 0,
                  whereClause = '' WHERE 1=1 ''\<rparr>"]
  by (simp add: sample_elev getProp_def show_small digit_char_def)

text \<open>C2 as first stated asks for the strict \<^verbatim>\<open>>\<close>: the fragment the builder
  returns for a minimum elevation is the inclusive one and differs from the strict
  one.\<close>

theorem elevation_builder_strict_counterexample:
  "addElevationFilters sampleEnv ''Imperial'' ''minElevation''
      \<lparr>filters = [(''minElevation'', JNum 500)], params = [], paramCount = 0,
       whereClause = '' WHERE 1=1 ''\<rparr>
    = Inr ('' AND ts.elevation_low_imperial >= $1 '',
           \<lparr>filters = [(''minElevation'', JNum 500)], params = [JNum 500], paramCount = 1,
            whereClause = '' WHERE 1=1 ''\<rparr>)
   \<and> '' AND ts.elevation_low_imperial >= $1 '' \<noteq> '' AND ts.elevation_low_imperial > $1 ''"
  by (simp add: addElevationFilters_def startsWith_def Let_def addParam_eq sample_elev getProp_def
        show_small digit_char_def)

text \<open>
  C3. The claim reads: the sanitizer maps \<^verbatim>\<open>"Cave & Falls!"\<close> to the two tokens
  \<^verbatim>\<open>Cave\<close> and \<^verbatim>\<open>Falls\<close> joined by the connective, with no empty token in the joined
  expression. On the code, empty tokens are dropped before the punctuation is
  stripped: the token \<^verbatim>\<open>&\<close> survives the filter, is stripped to the empty string
  afterwards and is joined as an empty token. This run evaluates the sanitizer, and
  the parameter that the text phase binds, on that input.
\<close>

theorem sanitizer_cave_falls_run:
  "sanitizeSearchTerm ''Cave & Falls!'' = ''Cave &  & Falls''
   \<and> params (textPhase (Some ''Cave & Falls!'') initialState) = [JStr ''%Cave &  & Falls%'']"
proof -
  have s: "sanitizeSearchTerm ''Cave & Falls!'' = ''Cave &  & Falls''"
    by (simp add: sanitizeSearchTerm_def trim_def strip_non_word_def is_space_def is_word_def)
  have "params (textPhase (Some ''Cave & Falls!'') initialState)
          = params initialState @ [JStr (''%'' @ sanitizeSearchTerm ''Cave & Falls!'' @ ''%'')]"
    by (rule textPhase_params) simp
  with s show ?thesis by (simp add: initialState_def)
qed

text \<open>
  C4. The claim reads: a key outside the structured ones and present in the table
  gives an equality predicate that compares as a number when the value is numeric
  and lower-cases both sides otherwise. The test of line 129 is
  \<^verbatim>\<open>Number(v) != NaN\<close>, which holds for every value (lemma \<open>filterStep_generic\<close>), so
  the lower-casing alternative is never taken. This run evaluates the composer on
  \<^verbatim>\<open>{city: "Huntsville"}\<close>, a value whose conversion to a number is \<^verbatim>\<open>NaN\<close>: the
  predicate is the plain equality and the parameter keeps its capital letter.
\<close>

theorem generic_string_value_run:
  "composePredicate sampleEnv ''Imperial'' None (Some [(''city'', JStr ''Huntsville'')])
   = Inr \<lparr>filters = [(''city'', JStr ''Huntsville'')], params = [JStr ''Huntsville''], paramCount = 1,
          whereClause = '' WHERE 1=1 AND t.city = $1''\<rparr>
   \<and> toNumber sampleEnv (JStr ''Huntsville'') = NaN"
proof -
  have "''city'' \<notin> set structuredKeys" by (simp add: structuredKeys_def)
  then have "composePredicate sampleEnv ''Imperial'' None (Some [(''city'', JStr ''Huntsville'')])
   = Inr \<lparr>filters = [(''city'', JStr ''Huntsville'')], params = [JStr ''Huntsville''], paramCount = 1,
          whereClause = '' WHERE 1=1 AND t.city = $1''\<rparr>"
    by (simp add: composePredicate_def textPhase_def initialState_def objectKeys_def
        filterStep_generic Let_def getProp_def sample_city show_small digit_char_def)
  moreover have "toNumber sampleEnv (JStr ''Huntsville'') = NaN"
    by (simp add: sampleEnv_def sampleStringToNumber_def trim_def is_space_def)
  ultimately show ?thesis by simp
qed

text \<open>
  C5. The claim reads: validation errors are raised during composition, before any
  query, and reach the caller as errors distinct from the one that signals a failed
  query. The raise is inside the \<^verbatim>\<open>try\<close> block, whose \<^verbatim>\<open>catch\<close> replaces whatever was
  thrown. This run evaluates a search whose \<^verbatim>\<open>features\<close> filter is a string, for
  every query engine and hydration service: no query is issued, the validation
  error is logged, and the caller receives the same error as the caller of a search
  whose query fails.
\<close>

theorem validation_error_masked_run:
  "searchTrails sampleEnv query hydrate None 1 10 (Some [(''features'', JStr ''cave'')]) JNull ''Imperial''
     = (Inl (Error ''Error executing search query''),
        [ConsoleError (Error ''Features filter must be an array''), Release])
   \<and> fst (searchTrails sampleEnv (\<lambda>sql ps. Inl (Error ''connection terminated'')) hydrate
             None 1 10 None JNull ''Imperial'')
     = Inl (Error ''Error executing search query'')"
  by (simp add: searchTrails_def searchBody_def composePredicate_def textPhase_def initialState_def
        objectKeys_def filterStep_features getProp_def)

text \<open>
  C6. The claim reads: with a \<^verbatim>\<open>features\<close> value that is not an array the search
  fails with the invalid-filter-value error, and with an array of N names the
  subquery keeps only trails that have all N (lemma \<open>features_all_listed\<close> proves
  this second half). This run evaluates a search with a string under \<^verbatim>\<open>features\<close>:
  composition raises the error of line 96, and the search as a whole fails with the
  error of line 170 instead.
\<close>

theorem features_not_array_run:
  "fst (searchTrails sampleEnv emptyStore (\<lambda>ids u. Inr [''Trail 1'']) (Some ''falls'') 1 10
          (Some [(''features'', JStr ''Waterfall'')]) JNull ''Imperial'')
     = Inl (Error ''Error executing search query'')
   \<and> composePredicate sampleEnv ''Imperial'' (Some ''falls'') (Some [(''features'', JStr ''Waterfall'')])
     = Inl (Error ''Features filter must be an array'')"
  by (simp add: searchTrails_def searchBody_def composePredicate_def objectKeys_def
        filterStep_features getProp_def)

text \<open>
  C7 (as amended). The text phase leaves the state as it is (no fragment appended,
  no parameter bound) exactly when the search term is absent or the empty string,
  and then a search without filters composes the base clause alone; a term that is
  not empty and consists of white space only is not skipped: it binds the
  parameter \<^verbatim>\<open>%%\<close> and appends the full-text fragment.
\<close>

theorem text_predicate_skipped_iff_falsy:
  "((textPhase searchTerm st = st) = (searchTerm = None \<or> searchTerm = Some []))
   \<and> (searchTerm = None \<or> searchTerm = Some [] \<longrightarrow>
        composePredicate env unit searchTerm None = Inr initialState)
   \<and> (s \<noteq> [] \<and> (\<forall>c\<in>set s. is_space c) \<longrightarrow>
        textPhase (Some s) st2 =
          st2\<lparr>params := params st2 @ [JStr ''%%''], paramCount := paramCount st2 + 1,
              whereClause := whereClause st2 @ textFragment (''$'' @ show_nat (paramCount st2 + 1))\<rparr>)"
proof (intro conjI impI)
  show "(textPhase searchTerm st = st) = (searchTerm = None \<or> searchTerm = Some [])"
  proof (cases searchTerm)
    case None
    then show ?thesis by (simp add: textPhase_def)
  next
    case (Some t)
    show ?thesis
    proof (cases "t = []")
      case True
      with Some show ?thesis by (simp add: textPhase_def)
    next
      case False
      then have "params (textPhase (Some t) st) \<noteq> params st"
        by (simp add: textPhase_params)
      then have "textPhase (Some t) st \<noteq> st" by auto
      with Some False show ?thesis by simp
    qed
  qed
next
  assume "searchTerm = None \<or> searchTerm = Some []"
  then show "composePredicate env unit searchTerm None = Inr initialState"
    by (auto simp: composePredicate_def textPhase_def)
next
  assume "s \<noteq> [] \<and> (\<forall>c\<in>set s. is_space c)"
  then show "textPhase (Some s) st2 =
          st2\<lparr>params := params st2 @ [JStr ''%%''], paramCount := paramCount st2 + 1,
              whereClause := whereClause st2 @ textFragment (''$'' @ show_nat (paramCount st2 + 1))\<rparr>"
    by (intro textPhase_blank) simp_all
qed

text \<open>C7, at concrete inputs: the empty term, and the term of three spaces.\<close>

theorem text_predicate_skipped_iff_falsy_witness:
  "textPhase (Some []) initialState = initialState
   \<and> composePredicate sampleEnv ''Imperial'' (Some []) None = Inr initialState
   \<and> textPhase (Some ''   '') initialState =
       initialState\<lparr>params := [JStr ''%%''], paramCount := 1,
                    whereClause := '' WHERE 1=1 '' @ textFragment ''$1''\<rparr>"
  using text_predicate_skipped_iff_falsy [where searchTerm = "Some []" and st = initialState
      and env = sampleEnv and unit = "''Imperial''" and s = "''   ''" and ?st2.0 = initialState]
  by (simp add: initialState_def is_space_def show_small digit_char_def)

text \<open>C7 as first stated has the term of three spaces skipped: the text phase binds
  a parameter and appends the fragment for it.\<close>

theorem blank_term_counterexample:
  "params (textPhase (Some ''   '') initialState) = [JStr ''%%'']
   \<and> whereClause (textPhase (Some ''   '') initialState) = '' WHERE 1=1 '' @ textFragment ''$1''
   \<and> textPhase (Some ''   '') initialState \<noteq> initialState"
proof -
  have b: "textPhase (Some ''   '') initialState =
       initialState\<lparr>params := params initialState @ [JStr ''%%''], paramCount := paramCount initialState + 1,
          whereClause := whereClause initialState @ textFragment (''$'' @ show_nat (paramCount initialState + 1))\<rparr>"
    by (rule textPhase_blank) (simp_all add: is_space_def)
  have "params (textPhase (Some ''   '') initialState) \<noteq> params initialState"
    unfolding b by (simp add: initialState_def)
  then have "textPhase (Some ''   '') initialState \<noteq> initialState" by auto
  then show ?thesis unfolding b by (simp add: initialState_def show_small digit_char_def)
qed

text \<open>
  C8. For every sequence of \<^verbatim>\<open>addParam\<close> calls, from any state whose counter equals
  the length of the parameter list, the i-th call returns the token of position
  (old length + i), counted from 1, and the values are appended in order, so that
  tokens and values correspond one to one; different positions have different
  tokens; the state at the start of a search and every state that the predicate
  phase ends in have counter and length equal; and the id query of a run is issued
  with the limit and the offset under the next two tokens and as the last two
  parameters.
\<close>

theorem addParam_positional:
  "(paramCount st = length (params st) \<longrightarrow>
      fst (addParams vs st) = map (\<lambda>i. ''$'' @ show_nat (length (params st) + i + 1)) [0..<length vs]
    \<and> params (snd (addParams vs st)) = params st @ vs
    \<and> paramCount (snd (addParams vs st)) = length (params (snd (addParams vs st))))
   \<and> ((''$'' @ show_nat m = ''$'' @ show_nat n) = (m = n))
   \<and> paramCount initialState = length (params initialState)
   \<and> (composePredicate env unit searchTerm fopt = Inr st2 \<longrightarrow> paramCount st2 = length (params st2))
   \<and> (composePredicate env unit searchTerm fopt = Inr st2
        \<and> query (countQueryOf (whereClause st2)) (params st2) = Inr (first # rest) \<longrightarrow>
      Query (finalQueryOf (whereClause st2) (''$'' @ show_nat (length (params st2) + 1))
                   (''$'' @ show_nat (length (params st2) + 2)))
               (params st2 @ [JNum limit, JNum ((pg - 1) * limit)])
         \<in> set (snd (searchTrails env query hydrate searchTerm pg limit fopt userId unit)))"
proof -
  have a: "paramCount st = length (params st) \<longrightarrow>
      fst (addParams vs st) = map (\<lambda>i. ''$'' @ show_nat (length (params st) + i + 1)) [0..<length vs]
    \<and> params (snd (addParams vs st)) = params st @ vs
    \<and> paramCount (snd (addParams vs st)) = length (params (snd (addParams vs st)))"
    using addParams_spec [of st vs] by (simp add: binderInv_def)
  have b: "(''$'' @ show_nat m = ''$'' @ show_nat n) = (m = n)"
    using show_nat_inj by auto
  have c: "paramCount initialState = length (params initialState)"
    by (simp add: initialState_def)
  have d: "composePredicate env unit searchTerm fopt = Inr st2 \<longrightarrow> paramCount st2 = length (params st2)"
    using composePredicate_inv [of env unit searchTerm fopt st2] by (simp add: binderInv_def)
  have e: "composePredicate env unit searchTerm fopt = Inr st2
        \<and> query (countQueryOf (whereClause st2)) (params st2) = Inr (first # rest) \<longrightarrow>
      Query (finalQueryOf (whereClause st2) (''$'' @ show_nat (length (params st2) + 1))
                   (''$'' @ show_nat (length (params st2) + 2)))
               (params st2 @ [JNum limit, JNum ((pg - 1) * limit)])
         \<in> set (snd (searchTrails env query hydrate searchTerm pg limit fopt userId unit))"
  proof
    assume h: "composePredicate env unit searchTerm fopt = Inr st2
        \<and> query (countQueryOf (whereClause st2)) (params st2) = Inr (first # rest)"
    then have "paramCount st2 = length (params st2)" using d by simp
    with final_query_event [of env unit searchTerm fopt st2 query first rest limit pg hydrate userId] h
    show "Query (finalQueryOf (whereClause st2) (''$'' @ show_nat (length (params st2) + 1))
                   (''$'' @ show_nat (length (params st2) + 2)))
               (params st2 @ [JNum limit, JNum ((pg - 1) * limit)])
         \<in> set (snd (searchTrails env query hydrate searchTerm pg limit fopt userId unit))"
      by simp
  qed
  from a b c d e show ?thesis by blast
qed

text \<open>C8, at a concrete run: two calls from the initial state, and a search without
  term and filters, whose id query carries the limit under token 1 and the offset
  under token 2.\<close>

theorem addParam_positional_witness:
  "paramCount initialState = length (params initialState)
   \<and> fst (addParams [JStr ''al'', JNum 2] initialState) = [''$1'', ''$2'']
   \<and> params (snd (addParams [JStr ''al'', JNum 2] initialState)) = [JStr ''al'', JNum 2]
   \<and> composePredicate sampleEnv ''Imperial'' None None = Inr initialState
   \<and> emptyStore (countQueryOf (whereClause initialState)) (params initialState)
       = Inr [[(''total_count'', JStr ''0'')]]
   \<and> Query (finalQueryOf '' WHERE 1=1 '' ''$1'' ''$2'') [JNum 10, JNum 0]
       \<in> set (snd (searchTrails sampleEnv emptyStore (\<lambda>ids u. Inr ([] :: nat list))
                      None 1 10 None JNull ''Imperial''))"
  using addParam_positional [where st = initialState and vs = "[JStr ''al'', JNum 2]"
      and m = 1 and n = 1 and env = sampleEnv and unit = "''Imperial''" and searchTerm = None
      and fopt = None and ?st2.0 = initialState and query = emptyStore
      and first = "[(''total_count'', JStr ''0'')]" and rest = "[]" and limit = 10 and pg = 1
      and hydrate = "\<lambda>ids u. Inr ([] :: nat list)" and userId = JNull]
  by (simp add: initialState_def composePredicate_def textPhase_def emptyStore_def
        countQueryOf_def startsWith_def show_small digit_char_def)

text \<open>
  C9. When the id query of a search returns no row (it is issued only after the
  predicate was composed and the count query returned a row), the search returns
  the total of the count query with an empty list of trails and the run has no
  hydration event; and in every run, a hydration event carries the user id of the
  call and the ids of the rows, at least one, that a query of that run returned.
\<close>

theorem no_rows_no_hydration:
  "(composePredicate env unit searchTerm fopt = Inr st
     \<and> query (countQueryOf (whereClause st)) (params st) = Inr (first # rest)
     \<and> query (finalQueryOf (whereClause st) (''$'' @ show_nat (paramCount st + 1))
                 (''$'' @ show_nat (paramCount st + 2)))
              (params st @ [JNum limit, JNum ((pg - 1) * limit)]) = Inr [] \<longrightarrow>
     fst (searchTrails env query hydrate searchTerm pg limit fopt userId unit)
        = Inr \<lparr>totalCount = getProp first ''total_count'', trails = []\<rparr>
     \<and> (\<forall>ids u. Hydrate ids u \<notin> set (snd (searchTrails env query hydrate searchTerm pg limit fopt userId unit))))
   \<and> (Hydrate ids' u' \<in> set (snd (searchTrails env' query' hydrate' searchTerm' pg' limit' fopt' userId' unit')) \<longrightarrow>
        ids' \<noteq> [] \<and> u' = userId'
        \<and> (\<exists>q ps rows. Query q ps \<in> set (snd (searchTrails env' query' hydrate' searchTerm' pg' limit' fopt' userId' unit'))
              \<and> query' q ps = Inr rows \<and> rows \<noteq> []
              \<and> ids' = map (\<lambda>row. toNumber env' (getProp row ''id'')) rows))"
proof (intro conjI impI)
  assume h: "composePredicate env unit searchTerm fopt = Inr st
     \<and> query (countQueryOf (whereClause st)) (params st) = Inr (first # rest)
     \<and> query (finalQueryOf (whereClause st) (''$'' @ show_nat (paramCount st + 1))
                 (''$'' @ show_nat (paramCount st + 2)))
              (params st @ [JNum limit, JNum ((pg - 1) * limit)]) = Inr []"
  then have r: "searchTrails env query hydrate searchTerm pg limit fopt userId unit =
     (Inr \<lparr>totalCount = getProp first ''total_count'', trails = []\<rparr>,
      [Query (countQueryOf (whereClause st)) (params st),
       Query (finalQueryOf (whereClause st) (''$'' @ show_nat (paramCount st + 1)) (''$'' @ show_nat (paramCount st + 2)))
               (params st @ [JNum limit, JNum ((pg - 1) * limit)]),
       Release])"
    by (intro searchTrails_no_rows) simp_all
  show "fst (searchTrails env query hydrate searchTerm pg limit fopt userId unit)
        = Inr \<lparr>totalCount = getProp first ''total_count'', trails = []\<rparr>"
    by (simp add: r)
  show "\<forall>ids u. Hydrate ids u \<notin> set (snd (searchTrails env query hydrate searchTerm pg limit fopt userId unit))"
    by (simp add: r)
next
  assume h: "Hydrate ids' u' \<in> set (snd (searchTrails env' query' hydrate' searchTerm' pg' limit' fopt' userId' unit'))"
  with searchTrails_events [of env' query' hydrate' searchTerm' pg' limit' fopt' userId' unit']
  have "Hydrate ids' u' \<in> set (snd (searchBody env' query' hydrate' searchTerm' pg' limit' fopt' userId' unit'))"
    by auto
  from searchBody_hydrate [OF this]
  obtain q ps rows where n: "ids' \<noteq> []" "u' = userId'"
    and q: "Query q ps \<in> set (snd (searchBody env' query' hydrate' searchTerm' pg' limit' fopt' userId' unit'))"
    and rest: "query' q ps = Inr rows" "rows \<noteq> []" "ids' = map (\<lambda>row. toNumber env' (getProp row ''id'')) rows"
    by blast
  from q searchBody_events [of env' query' hydrate' searchTerm' pg' limit' fopt' userId' unit']
  have "Query q ps \<in> set (snd (searchTrails env' query' hydrate' searchTerm' pg' limit' fopt' userId' unit'))"
    by auto
  with n rest show "ids' \<noteq> []" "u' = userId'"
       "\<exists>q ps rows. Query q ps \<in> set (snd (searchTrails env' query' hydrate' searchTerm' pg' limit' fopt' userId' unit'))
              \<and> query' q ps = Inr rows \<and> rows \<noteq> []
              \<and> ids' = map (\<lambda>row. toNumber env' (getProp row ''id'')) rows"
    by blast+
qed

text \<open>C9, at concrete runs: a store without a match, and a store that returns
  trail 1.\<close>

theorem no_rows_no_hydration_witness:
  "fst (searchTrails sampleEnv emptyStore (\<lambda>ids u. Inr [''Trail 1'']) None 1 10 None JNull ''Imperial'')
     = Inr \<lparr>totalCount = JStr ''0'', trails = []\<rparr>
   \<and> Hydrate [Fin 1] JNull \<notin> set (snd (searchTrails sampleEnv emptyStore (\<lambda>ids u. Inr [''Trail 1''])
                                           None 1 10 None JNull ''Imperial''))
   \<and> Hydrate [Fin 1] JNull \<in> set (snd (searchTrails sampleEnv oneTrailStore (\<lambda>ids u. Inr [''Trail 1''])
                                           None 1 10 None JNull ''Imperial''))
   \<and> oneTrailStore (finalQueryOf '' WHERE 1=1 '' ''$1'' ''$2'') [JNum 10, JNum 0] = Inr [[(''id'', JNum 1)]]
   \<and> [Fin 1] = map (\<lambda>row. toNumber sampleEnv (getProp row ''id'')) [[(''id'', JNum 1)]]"
  using no_rows_no_hydration [where env = sampleEnv and unit = "''Imperial''" and searchTerm = None
      and fopt = None and st = initialState and query = emptyStore
      and first = "[(''total_count'', JStr ''0'')]" and rest = "[]" and limit = 10 and pg = 1
      and hydrate = "\<lambda>ids u. Inr [''Trail 1'']" and userId = JNull
      and ids' = "[Fin 1]" and u' = JNull and env' = sampleEnv and query' = oneTrailStore
      and hydrate' = "\<lambda>ids u. Inr [''Trail 1'']" and searchTerm' = None and pg' = 1 and limit' = 10
      and fopt' = None and userId' = JNull and unit' = "''Imperial''"]
  by (simp add: one_trail_run empty_run oneTrailStore_def final_query_head getProp_def)

text \<open>
  C10. For every filter map and every key of it made of \<^verbatim>\<open>minDistance\<close> or
  \<^verbatim>\<open>maxDistance\<close> and a non-empty suffix, the loop of the search hands the key to its
  last branch and goes on with the other keys: the step is a plain equality
  predicate when the table has a (non-empty) column for the key and nothing
  otherwise, whatever came before the key in the map, and the value bound is the
  one the map holds; a search over a map of such keys only composes exactly these
  equality predicates, in key order, and sends them with its count query. For the
  unitless keys, a step that succeeds binds two parameters exactly when the value
  under the key and the value under the unit-qualified opposite key are both
  truthy; when it binds two, the fragment is the \<^verbatim>\<open>BETWEEN\<close> predicate over the two new
  tokens and both keys are present, in the filter object at that step and in the
  filter map the search was called with; and the search goes on from the state of
  that step with the keys after it.
\<close>

theorem unit_qualified_distance_keys:
  "(u \<noteq> [] \<and> (key = ''minDistance'' @ u \<or> key = ''maxDistance'' @ u) \<longrightarrow>
      filterStep env unit key st =
        (if truthyStr (jsToSqlFilters env key)
         then Inr (st\<lparr>params := params st @ [getProp (filters st) key],
                       paramCount := paramCount st + 1,
                       whereClause := whereClause st @ ''AND '' @ interp (jsToSqlFilters env key)
                                        @ '' = '' @ ''$'' @ show_nat (paramCount st + 1)\<rparr>)
         else Inr st)
      \<and> composeLoop env unit (key # keys) st = composeLoop env unit keys (equalityStep env key st))
   \<and> (u \<noteq> [] \<and> (key = ''minDistance'' @ u \<or> key = ''maxDistance'' @ u)
        \<and> objectKeys fs = pre @ key # post
        \<and> composeLoop env unit pre ((textPhase searchTerm initialState)\<lparr>filters := fs\<rparr>) = Inr stp \<longrightarrow>
      composePredicate env unit searchTerm (Some fs)
        = composeLoop env unit post (equalityStep env key stp)
      \<and> getProp (filters stp) key = getProp fs key)
   \<and> ((\<forall>k\<in>set (objectKeys fs1). unitQualifiedDistanceKey k) \<longrightarrow>
      composePredicate env1 unit1 searchTerm1 (Some fs1)
        = Inr (foldl (\<lambda>s k. equalityStep env1 k s)
                 ((textPhase searchTerm1 initialState)\<lparr>filters := fs1\<rparr>) (objectKeys fs1))
      \<and> filters (foldl (\<lambda>s k. equalityStep env1 k s)
                 ((textPhase searchTerm1 initialState)\<lparr>filters := fs1\<rparr>) (objectKeys fs1)) = fs1
      \<and> Query (countQueryOf (whereClause (foldl (\<lambda>s k. equalityStep env1 k s)
                 ((textPhase searchTerm1 initialState)\<lparr>filters := fs1\<rparr>) (objectKeys fs1))))
               (params (foldl (\<lambda>s k. equalityStep env1 k s)
                 ((textPhase searchTerm1 initialState)\<lparr>filters := fs1\<rparr>) (objectKeys fs1)))
          \<in> set (snd (searchTrails env1 query hydrate searchTerm1 pg limit (Some fs1) userId unit1)))
   \<and> ((kd = ''minDistance'' \<or> kd = ''maxDistance'') \<and> filterStep env2 unit2 kd st2 = Inr st3 \<longrightarrow>
        (length (params st3) = length (params st2) + 2)
          = (truthy (getProp (filters st2) kd) \<and>
             truthy (getProp (filters st2)
                      (if kd = ''minDistance'' then ''maxDistance'' @ unit2 else ''minDistance'' @ unit2))))
   \<and> ((kd = ''minDistance'' \<or> kd = ''maxDistance'') \<and> filterStep env2 unit2 kd st2 = Inr st3
        \<and> length (params st3) = length (params st2) + 2 \<longrightarrow>
        map_of (filters st2) kd \<noteq> None
        \<and> map_of (filters st2)
             (if kd = ''minDistance'' then ''maxDistance'' @ unit2 else ''minDistance'' @ unit2) \<noteq> None
        \<and> whereClause st3 = whereClause st2 @ '' AND '' @ interp (jsToSqlFilters env2 (kd @ unit2))
             @ '' BETWEEN $'' @ show_nat (paramCount st2 + 1)
             @ '' AND $'' @ show_nat (paramCount st2 + 2) @ '' '')
   \<and> ((kd = ''minDistance'' \<or> kd = ''maxDistance'')
        \<and> objectKeys fs2 = pre2 @ kd # post2
        \<and> composeLoop env2 unit2 pre2 ((textPhase searchTerm2 initialState)\<lparr>filters := fs2\<rparr>) = Inr st2
        \<and> filterStep env2 unit2 kd st2 = Inr st3 \<longrightarrow>
        composePredicate env2 unit2 searchTerm2 (Some fs2) = composeLoop env2 unit2 post2 st3)
   \<and> ((kd = ''minDistance'' \<or> kd = ''maxDistance'')
        \<and> objectKeys fs2 = pre2 @ kd # post2
        \<and> composeLoop env2 unit2 pre2 ((textPhase searchTerm2 initialState)\<lparr>filters := fs2\<rparr>) = Inr st2
        \<and> filterStep env2 unit2 kd st2 = Inr st3
        \<and> length (params st3) = length (params st2) + 2 \<longrightarrow>
        map_of fs2 kd \<noteq> None
        \<and> map_of fs2
             (if kd = ''minDistance'' then ''maxDistance'' @ unit2 else ''minDistance'' @ unit2) \<noteq> None)"
proof -
  let ?F = "foldl (\<lambda>s k. equalityStep env1 k s)
                 ((textPhase searchTerm1 initialState)\<lparr>filters := fs1\<rparr>) (objectKeys fs1)"
  have c1: "u \<noteq> [] \<and> (key = ''minDistance'' @ u \<or> key = ''maxDistance'' @ u) \<longrightarrow>
      filterStep env unit key st =
        (if truthyStr (jsToSqlFilters env key)
         then Inr (st\<lparr>params := params st @ [getProp (filters st) key],
                       paramCount := paramCount st + 1,
                       whereClause := whereClause st @ ''AND '' @ interp (jsToSqlFilters env key)
                                        @ '' = '' @ ''$'' @ show_nat (paramCount st + 1)\<rparr>)
         else Inr st)
      \<and> composeLoop env unit (key # keys) st = composeLoop env unit keys (equalityStep env key st)"
  proof
    assume "u \<noteq> [] \<and> (key = ''minDistance'' @ u \<or> key = ''maxDistance'' @ u)"
    then have n: "key \<notin> set structuredKeys"
      by (intro unit_qualified_not_structured [of u]) simp_all
    show "filterStep env unit key st =
        (if truthyStr (jsToSqlFilters env key)
         then Inr (st\<lparr>params := params st @ [getProp (filters st) key],
                       paramCount := paramCount st + 1,
                       whereClause := whereClause st @ ''AND '' @ interp (jsToSqlFilters env key)
                                        @ '' = '' @ ''$'' @ show_nat (paramCount st + 1)\<rparr>)
         else Inr st)
      \<and> composeLoop env unit (key # keys) st = composeLoop env unit keys (equalityStep env key st)"
    proof
      show "filterStep env unit key st =
        (if truthyStr (jsToSqlFilters env key)
         then Inr (st\<lparr>params := params st @ [getProp (filters st) key],
                       paramCount := paramCount st + 1,
                       whereClause := whereClause st @ ''AND '' @ interp (jsToSqlFilters env key)
                                        @ '' = '' @ ''$'' @ show_nat (paramCount st + 1)\<rparr>)
         else Inr st)"
        using n by (rule filterStep_generic)
      show "composeLoop env unit (key # keys) st = composeLoop env unit keys (equalityStep env key st)"
        by (simp add: filterStep_equality [OF n])
    qed
  qed
  have c2: "u \<noteq> [] \<and> (key = ''minDistance'' @ u \<or> key = ''maxDistance'' @ u)
        \<and> objectKeys fs = pre @ key # post
        \<and> composeLoop env unit pre ((textPhase searchTerm initialState)\<lparr>filters := fs\<rparr>) = Inr stp \<longrightarrow>
      composePredicate env unit searchTerm (Some fs)
        = composeLoop env unit post (equalityStep env key stp)
      \<and> getProp (filters stp) key = getProp fs key"
  proof
    assume h: "u \<noteq> [] \<and> (key = ''minDistance'' @ u \<or> key = ''maxDistance'' @ u)
        \<and> objectKeys fs = pre @ key # post
        \<and> composeLoop env unit pre ((textPhase searchTerm initialState)\<lparr>filters := fs\<rparr>) = Inr stp"
    then have n: "key \<notin> set structuredKeys"
      by (intro unit_qualified_not_structured [of u]) simp_all
    then have ne: "key \<noteq> ''minDistance''" "key \<noteq> ''maxDistance''"
      by (simp_all add: structuredKeys_def)
    from h have k: "objectKeys fs = pre @ key # post"
      and l: "composeLoop env unit pre ((textPhase searchTerm initialState)\<lparr>filters := fs\<rparr>) = Inr stp"
      by blast+
    have "composePredicate env unit searchTerm (Some fs) = composeLoop env unit (key # post) stp"
      using k l by (rule composePredicate_at)
    then have a: "composePredicate env unit searchTerm (Some fs)
        = composeLoop env unit post (equalityStep env key stp)"
      by (simp add: filterStep_equality [OF n])
    have b: "getProp (filters stp) key = getProp fs key"
      using composeLoop_keeps [OF ne l] by simp
    from a b show "composePredicate env unit searchTerm (Some fs)
        = composeLoop env unit post (equalityStep env key stp)
      \<and> getProp (filters stp) key = getProp fs key" by simp
  qed
  have c3: "(\<forall>k\<in>set (objectKeys fs1). unitQualifiedDistanceKey k) \<longrightarrow>
      composePredicate env1 unit1 searchTerm1 (Some fs1) = Inr ?F
      \<and> filters ?F = fs1
      \<and> Query (countQueryOf (whereClause ?F)) (params ?F)
          \<in> set (snd (searchTrails env1 query hydrate searchTerm1 pg limit (Some fs1) userId unit1))"
  proof
    assume "\<forall>k\<in>set (objectKeys fs1). unitQualifiedDistanceKey k"
    then have "\<forall>k\<in>set (objectKeys fs1). k \<notin> set structuredKeys"
      using unitQualified_not_structured by blast
    then have a: "composePredicate env1 unit1 searchTerm1 (Some fs1) = Inr ?F"
      by (simp add: composePredicate_def composeLoop_equalities)
    have b: "filters ?F = fs1" by (simp add: equalities_filters)
    from a b count_query_event [OF a]
    show "composePredicate env1 unit1 searchTerm1 (Some fs1) = Inr ?F
      \<and> filters ?F = fs1
      \<and> Query (countQueryOf (whereClause ?F)) (params ?F)
          \<in> set (snd (searchTrails env1 query hydrate searchTerm1 pg limit (Some fs1) userId unit1))"
      by blast
  qed
  have c4: "(kd = ''minDistance'' \<or> kd = ''maxDistance'') \<and> filterStep env2 unit2 kd st2 = Inr st3 \<longrightarrow>
        (length (params st3) = length (params st2) + 2)
          = (truthy (getProp (filters st2) kd) \<and>
             truthy (getProp (filters st2)
                      (if kd = ''minDistance'' then ''maxDistance'' @ unit2 else ''minDistance'' @ unit2)))"
    using distance_pair_iff [of kd env2 unit2 st2 st3] by simp
  have c5: "(kd = ''minDistance'' \<or> kd = ''maxDistance'') \<and> filterStep env2 unit2 kd st2 = Inr st3
        \<and> length (params st3) = length (params st2) + 2 \<longrightarrow>
        map_of (filters st2) kd \<noteq> None
        \<and> map_of (filters st2)
             (if kd = ''minDistance'' then ''maxDistance'' @ unit2 else ''minDistance'' @ unit2) \<noteq> None
        \<and> whereClause st3 = whereClause st2 @ '' AND '' @ interp (jsToSqlFilters env2 (kd @ unit2))
             @ '' BETWEEN $'' @ show_nat (paramCount st2 + 1)
             @ '' AND $'' @ show_nat (paramCount st2 + 2) @ '' ''"
  proof
    assume h: "(kd = ''minDistance'' \<or> kd = ''maxDistance'') \<and> filterStep env2 unit2 kd st2 = Inr st3
        \<and> length (params st3) = length (params st2) + 2"
    then have k: "kd = ''minDistance'' \<or> kd = ''maxDistance''"
      and r: "filterStep env2 unit2 kd st2 = Inr st3"
      and two: "length (params st3) = length (params st2) + 2" by simp_all
    from two distance_pair_iff [OF k r]
    have t1: "truthy (getProp (filters st2) kd)"
      and t2: "truthy (getProp (filters st2)
                      (if kd = ''minDistance'' then ''maxDistance'' @ unit2 else ''minDistance'' @ unit2))"
      by simp_all
    from truthy_present [OF t1] truthy_present [OF t2] distance_pair_outcome [OF k r t1 t2]
    show "map_of (filters st2) kd \<noteq> None
        \<and> map_of (filters st2)
             (if kd = ''minDistance'' then ''maxDistance'' @ unit2 else ''minDistance'' @ unit2) \<noteq> None
        \<and> whereClause st3 = whereClause st2 @ '' AND '' @ interp (jsToSqlFilters env2 (kd @ unit2))
             @ '' BETWEEN $'' @ show_nat (paramCount st2 + 1)
             @ '' AND $'' @ show_nat (paramCount st2 + 2) @ '' ''"
      by simp
  qed
  have c6: "(kd = ''minDistance'' \<or> kd = ''maxDistance'')
        \<and> objectKeys fs2 = pre2 @ kd # post2
        \<and> composeLoop env2 unit2 pre2 ((textPhase searchTerm2 initialState)\<lparr>filters := fs2\<rparr>) = Inr st2
        \<and> filterStep env2 unit2 kd st2 = Inr st3 \<longrightarrow>
        composePredicate env2 unit2 searchTerm2 (Some fs2) = composeLoop env2 unit2 post2 st3"
  proof
    assume h: "(kd = ''minDistance'' \<or> kd = ''maxDistance'')
        \<and> objectKeys fs2 = pre2 @ kd # post2
        \<and> composeLoop env2 unit2 pre2 ((textPhase searchTerm2 initialState)\<lparr>filters := fs2\<rparr>) = Inr st2
        \<and> filterStep env2 unit2 kd st2 = Inr st3"
    then have k: "objectKeys fs2 = pre2 @ kd # post2"
      and l: "composeLoop env2 unit2 pre2 ((textPhase searchTerm2 initialState)\<lparr>filters := fs2\<rparr>) = Inr st2"
      by blast+
    have "composePredicate env2 unit2 searchTerm2 (Some fs2) = composeLoop env2 unit2 (kd # post2) st2"
      using k l by (rule composePredicate_at)
    with h show "composePredicate env2 unit2 searchTerm2 (Some fs2) = composeLoop env2 unit2 post2 st3"
      by simp
  qed
  have c7: "(kd = ''minDistance'' \<or> kd = ''maxDistance'')
        \<and> objectKeys fs2 = pre2 @ kd # post2
        \<and> composeLoop env2 unit2 pre2 ((textPhase searchTerm2 initialState)\<lparr>filters := fs2\<rparr>) = Inr st2
        \<and> filterStep env2 unit2 kd st2 = Inr st3
        \<and> length (params st3) = length (params st2) + 2 \<longrightarrow>
        map_of fs2 kd \<noteq> None
        \<and> map_of fs2
             (if kd = ''minDistance'' then ''maxDistance'' @ unit2 else ''minDistance'' @ unit2) \<noteq> None"
  proof
    assume h: "(kd = ''minDistance'' \<or> kd = ''maxDistance'')
        \<and> objectKeys fs2 = pre2 @ kd # post2
        \<and> composeLoop env2 unit2 pre2 ((textPhase searchTerm2 initialState)\<lparr>filters := fs2\<rparr>) = Inr st2
        \<and> filterStep env2 unit2 kd st2 = Inr st3
        \<and> length (params st3) = length (params st2) + 2"
    then have l: "composeLoop env2 unit2 pre2 ((textPhase searchTerm2 initialState)\<lparr>filters := fs2\<rparr>) = Inr st2"
      by blast
    from h c5 have p: "map_of (filters st2) kd \<noteq> None"
      "map_of (filters st2)
             (if kd = ''minDistance'' then ''maxDistance'' @ unit2 else ''minDistance'' @ unit2) \<noteq> None"
      by simp_all
    from composeLoop_dom [OF l p(1)] composeLoop_dom [OF l p(2)]
    show "map_of fs2 kd \<noteq> None
        \<and> map_of fs2
             (if kd = ''minDistance'' then ''maxDistance'' @ unit2 else ''minDistance'' @ unit2) \<noteq> None"
      by simp
  qed
  from c1 c2 c3 c4 c5 c6 c7 show ?thesis by blast
qed

text \<open>C10, at concrete inputs: the unit-qualified pair of the routes, composed
  and sent with the count query, and a filter map that holds the unitless pair
  together with the unit-qualified maximum.\<close>

theorem unit_qualified_distance_keys_witness:
  "filterStep sampleEnv ''Imperial'' ''minDistanceImperial''
     \<lparr>filters = [(''minDistanceImperial'', JNum 10), (''maxDistanceImperial'', JNum 2)],
      params = [], paramCount = 0, whereClause = '' WHERE 1=1 ''\<rparr>
   = Inr \<lparr>filters = [(''minDistanceImperial'', JNum 10), (''maxDistanceImperial'', JNum 2)],
          params = [JNum 10], paramCount = 1,
          whereClause = '' WHERE 1=1 AND ts.distance_imperial = $1''\<rparr>
   \<and> composePredicate sampleEnv ''Imperial'' None
     (Some [(''minDistanceImperial'', JNum 10), (''maxDistanceImperial'', JNum 2)])
   = Inr \<lparr>filters = [(''minDistanceImperial'', JNum 10), (''maxDistanceImperial'', JNum 2)],
          params = [JNum 10, JNum 2], paramCount = 2,
          whereClause = '' WHERE 1=1 AND ts.distance_imperial = $1AND ts.distance_imperial = $2''\<rparr>
   \<and> Query (countQueryOf '' WHERE 1=1 AND ts.distance_imperial = $1AND ts.distance_imperial = $2'')
           [JNum 10, JNum 2]
      \<in> set (snd (searchTrails sampleEnv emptyStore (\<lambda>ids u. Inr [''Trail 1'']) None 1 10
                     (Some [(''minDistanceImperial'', JNum 10), (''maxDistanceImperial'', JNum 2)])
                     JNull ''Imperial''))
   \<and> filterStep sampleEnv ''Imperial'' ''minDistance''
     \<lparr>filters = [(''minDistance'', JNum 10), (''maxDistance'', JNum 2), (''maxDistanceImperial'', JNum 2)],
      params = [], paramCount = 0, whereClause = '' WHERE 1=1 ''\<rparr>
   = Inr \<lparr>filters = [(''maxDistanceImperial'', JNum 2)],
          params = [JNum 2, JNum 10], paramCount = 2,
          whereClause = '' WHERE 1=1  AND ts.distance_imperial BETWEEN $1 AND $2 ''\<rparr>
   \<and> map_of [(''minDistance'', JNum 10), (''maxDistance'', JNum 2), (''maxDistanceImperial'', JNum 2)]
        ''maxDistanceImperial'' \<noteq> None
   \<and> composePredicate sampleEnv ''Imperial'' None
     (Some [(''minDistance'', JNum 10), (''maxDistance'', JNum 2), (''maxDistanceImperial'', JNum 2)])
   = Inr \<lparr>filters = [(''maxDistanceImperial'', JNum 2)],
          params = [JNum 2, JNum 10, JNum 2], paramCount = 3,
          whereClause = '' WHERE 1=1  AND ts.distance_imperial BETWEEN $1 AND $2 AND ts.distance_imperial = $3''\<rparr>"
proof -
  note t = unit_qualified_distance_keys [where u = "''Imperial''" and key = "''minDistanceImperial''"
      and env = sampleEnv and unit = "''Imperial''"
      and st = "\<lparr>filters = [(''minDistanceImperial'', JNum 10), (''maxDistanceImperial'', JNum 2)],
                 params = [], paramCount = 0, whereClause = '' WHERE 1=1 ''\<rparr>"
      and keys = "[''maxDistanceImperial'']"
      and fs = "[(''minDistanceImperial'', JNum 10), (''maxDistanceImperial'', JNum 2)]"
      and pre = "[]" and post = "[''maxDistanceImperial'']" and searchTerm = None
      and stp = "\<lparr>filters = [(''minDistanceImperial'', JNum 10), (''maxDistanceImperial'', JNum 2)],
                 params = [], paramCount = 0, whereClause = '' WHERE 1=1 ''\<rparr>"
      and ?fs1.0 = "[(''minDistanceImperial'', JNum 10), (''maxDistanceImperial'', JNum 2)]"
      and ?env1.0 = sampleEnv and ?unit1.0 = "''Imperial''" and ?searchTerm1.0 = None
      and query = emptyStore and hydrate = "\<lambda>ids u. Inr [''Trail 1'']" and pg = 1 and limit = 10
      and userId = JNull
      and kd = "''minDistance''" and ?env2.0 = sampleEnv and ?unit2.0 = "''Imperial''"
      and ?st2.0 = "\<lparr>filters = [(''minDistance'', JNum 10), (''maxDistance'', JNum 2),
                              (''maxDistanceImperial'', JNum 2)],
                   params = [], paramCount = 0, whereClause = '' WHERE 1=1 ''\<rparr>"
      and ?st3.0 = "\<lparr>filters = [(''maxDistanceImperial'', JNum 2)],
                   params = [JNum 2, JNum 10], paramCount = 2,
                   whereClause = '' WHERE 1=1  AND ts.distance_imperial BETWEEN $1 AND $2 ''\<rparr>"
      and ?fs2.0 = "[(''minDistance'', JNum 10), (''maxDistance'', JNum 2), (''maxDistanceImperial'', JNum 2)]"
      and ?pre2.0 = "[]" and ?post2.0 = "[''maxDistance'', ''maxDistanceImperial'']"
      and ?searchTerm2.0 = None]
  have q: "Query (countQueryOf '' WHERE 1=1 AND ts.distance_imperial = $1AND ts.distance_imperial = $2'')
           [JNum 10, JNum 2]
      \<in> set (snd (searchTrails sampleEnv emptyStore (\<lambda>ids u. Inr [''Trail 1'']) None 1 10
                     (Some [(''minDistanceImperial'', JNum 10), (''maxDistanceImperial'', JNum 2)])
                     JNull ''Imperial''))"
    using count_query_event [OF unit_pair_run] by simp
  show ?thesis
    using t q
    by (simp add: unit_pair_run mixed_compose_run mixed_pair_run sample_min getProp_def
          show_small digit_char_def)
qed

end
